theory Spec2Isabelle
  imports Main "HOL-Library.Word"
begin

unbundle bit_operations_syntax

section \<open>Target platform\<close>

text \<open>
  The program runs on an ATmega328P built with avr-gcc. There \<open>int\<close> and
  \<open>unsigned int\<close> are 16 bits wide, \<open>long\<close>, \<open>unsigned long\<close> and \<open>int32_t\<close>
  are 32 bits wide, \<open>byte\<close> is 8 bits, and \<open>int64_t\<close>/\<open>uint64_t\<close> are 64 bits.
  Conversions between integer types keep the value modulo the width of the
  destination; a signed source is sign-extended when it is widened.
\<close>

type_synonym u8 = "8 word"
type_synonym u16 = "16 word"
type_synonym u32 = "32 word"
type_synonym u64 = "64 word"

subsection \<open>Register bit numbers\<close>

text \<open>
  Bit numbers of the ATmega328P registers the program names. They come from the
  device header of the AVR tool chain (\<open>avr/io.h\<close>), which the program
  includes through the Arduino core.
\<close>

definition CS10 :: nat where "CS10 = 0"
definition CS11 :: nat where "CS11 = 1"
definition CS12 :: nat where "CS12 = 2"
definition TOIE1 :: nat where "TOIE1 = 0"
definition TOV1 :: nat where "TOV1 = 0"
definition INT1 :: nat where "INT1 = 1"
definition PCINT13 :: nat where "PCINT13 = 5"
definition PCIF1 :: nat where "PCIF1 = 1"

subsection \<open>Build configuration\<close>

text \<open>
  The macros of \<open>OrionXConfig.h\<close> and \<open>OrionBoardConfig.h\<close> that
  \<open>OrionCalibration.cpp\<close> uses. The headers are not part of the verified
  file, so the values are parameters. \<open>GPS_PPS_ON_D2_OR_D3\<close> says whether the
  macro of that name is defined: it selects the interrupt handler that is
  compiled in.
\<close>

record board_config =
  GPS_PPS_ON_D2_OR_D3 :: bool
  SI5351A_CLK_FREQ_CORRECTION :: u32
  SI5351_CAL_TARGET_FREQ :: u64
  PARK_FREQ_HZ :: u64

section \<open>Observable actions\<close>

text \<open>
  The variables shared between the interrupt handlers and the main flow are all
  declared \<open>volatile\<close>, and so are the device registers. Every access to them
  is recorded, in program order, together with the calls that switch
  interrupts off and on.
\<close>

datatype volatile =
    V_TCNT1 | V_TCCR1B | V_TIMSK1 | V_TIFR1 | V_EIMSK | V_PCMSK1 | V_PCIFR
  | V_overflowCounter | V_gpsPPScounter | V_g_calibration_proceed
  | V_is_PPS_rising_edge

datatype actor = Main_flow | Handler

datatype access =
    Rd actor volatile
  | Wr actor volatile
  | NoInterrupts
  | Interrupts

text \<open>Calls to the collaborators: the synthesizer driver, the logger, \<open>delay\<close>.\<close>

datatype clk = SI5351A_CAL_CLK_NUM | SI5351A_PARK_CLK_NUM

datatype clk_switch = SI5351_CLK_OFF | SI5351_CLK_ON

datatype call =
    Swerr nat nat
  | Log_debug_Timer1_info u8 u16 u16
  | Log_calibration u64 u32 u32
  | Si5351bx_set_correction u32
  | Si5351bx_setfreq clk u64
  | Si5351bx_enable_clk clk clk_switch
  | Delay nat

section \<open>Machine state\<close>

record machine =
  TCNT1 :: u16
  TCCR1B :: u8
  TIMSK1 :: u8
  TIFR1 :: u8
  EIMSK :: u8
  PCMSK1 :: u8
  PCIFR :: u8
  global_interrupts :: bool
  old_cal_factor :: u32
  cal_factor :: u32
  measured_rx_freq :: u64
  target_freq :: u64
  overflowCounter :: u16
  gpsPPScounter :: u16
  g_calibration_proceed :: bool
  is_PPS_rising_edge :: bool
  vtrace :: "access list"
  calls :: "call list"

definition emit :: "access \<Rightarrow> machine \<Rightarrow> machine" where
  "emit a s = s\<lparr>vtrace := vtrace s @ [a]\<rparr>"

definition invoke :: "call \<Rightarrow> machine \<Rightarrow> machine" where
  "invoke c s = s\<lparr>calls := calls s @ [c]\<rparr>"

text \<open>The state after the static initialisers of the file have run.\<close>

definition power_on :: "board_config \<Rightarrow> machine" where
  "power_on cfg =
     \<lparr>TCNT1 = 0, TCCR1B = 0, TIMSK1 = 0, TIFR1 = 0, EIMSK = 0, PCMSK1 = 0,
      PCIFR = 0, global_interrupts = True,
      old_cal_factor = SI5351A_CLK_FREQ_CORRECTION cfg,
      cal_factor = SI5351A_CLK_FREQ_CORRECTION cfg,
      measured_rx_freq = 0,
      target_freq = SI5351_CAL_TARGET_FREQ cfg,
      overflowCounter = 0, gpsPPScounter = 0,
      g_calibration_proceed = False, is_PPS_rising_edge = False,
      vtrace = [], calls = []\<rparr>"

section \<open>Interrupt handlers\<close>

text \<open>\<open>ISR(TIMER1_OVF_vect)\<close>: \<open>overflowCounter++\<close> on a 16-bit unsigned.\<close>

definition TIMER1_OVF_vect :: "machine \<Rightarrow> machine" where
  "TIMER1_OVF_vect s =
     (let s = emit (Rd Handler V_overflowCounter) s;
          s = emit (Wr Handler V_overflowCounter)
                (s\<lparr>overflowCounter := overflowCounter s + 1\<rparr>)
      in s)"

text \<open>
  The body both PPS handlers share: count the edge, restart the count on the
  first one. Writing a one to a bit of \<open>TIFR1\<close> clears that flag.
\<close>

definition count_pps_edge :: "machine \<Rightarrow> machine" where
  "count_pps_edge s =
     (let s = emit (Rd Handler V_gpsPPScounter) s;
          s = emit (Wr Handler V_gpsPPScounter)
                (s\<lparr>gpsPPScounter := gpsPPScounter s + 1\<rparr>);
          s = emit (Rd Handler V_gpsPPScounter) s
      in if gpsPPScounter s = 1 then
           (let s = emit (Wr Handler V_TCNT1) (s\<lparr>TCNT1 := 0\<rparr>);
                s = emit (Wr Handler V_TIFR1)
                      (s\<lparr>TIFR1 := TIFR1 s AND NOT (push_bit TOV1 1)\<rparr>);
                s = emit (Wr Handler V_overflowCounter) (s\<lparr>overflowCounter := 0\<rparr>)
            in s)
         else s)"

text \<open>\<open>PPSinterruptISR\<close>, compiled when \<open>GPS_PPS_ON_D2_OR_D3\<close> is defined.\<close>

definition PPSinterruptISR :: "machine \<Rightarrow> machine" where
  "PPSinterruptISR s =
     (let s = count_pps_edge s;
          s = emit (Rd Handler V_gpsPPScounter) s
      in if gpsPPScounter s = 11 then
           (let s = emit (Wr Handler V_EIMSK) (s\<lparr>EIMSK := push_bit INT1 0\<rparr>);
                s = emit (Wr Handler V_TCCR1B) (s\<lparr>TCCR1B := 0\<rparr>);
                s = emit (Wr Handler V_g_calibration_proceed)
                      (s\<lparr>g_calibration_proceed := True\<rparr>)
            in s)
         else s)"

text \<open>\<open>ISR (PCINT1_vect)\<close>, compiled otherwise.\<close>

definition PCINT1_vect :: "machine \<Rightarrow> machine" where
  "PCINT1_vect s =
     (let s = emit (Rd Handler V_is_PPS_rising_edge) s;
          s = emit (Wr Handler V_is_PPS_rising_edge)
                (s\<lparr>is_PPS_rising_edge := \<not> is_PPS_rising_edge s\<rparr>);
          s = emit (Rd Handler V_is_PPS_rising_edge) s
      in if is_PPS_rising_edge s = True then
           (let s = count_pps_edge s;
                s = emit (Rd Handler V_gpsPPScounter) s
            in if gpsPPScounter s = 11 then
                 (let s = emit (Wr Handler V_PCMSK1) (s\<lparr>PCMSK1 := push_bit PCINT13 0\<rparr>);
                      s = emit (Wr Handler V_TCCR1B) (s\<lparr>TCCR1B := 0\<rparr>);
                      s = emit (Wr Handler V_is_PPS_rising_edge)
                            (s\<lparr>is_PPS_rising_edge := False\<rparr>);
                      s = emit (Wr Handler V_g_calibration_proceed)
                            (s\<lparr>g_calibration_proceed := True\<rparr>)
                  in s)
               else s)
         else s)"

section \<open>Hardware events\<close>

text \<open>
  What the device does with the registers, as the comments of the source state
  it: with \<open>CS12\<close>, \<open>CS11\<close> and \<open>CS10\<close> set, Timer1 counts the rising edges
  on pin T1; \<open>TCNT1\<close> runs up to \<open>0xFFFF\<close>, overflows to zero and sets
  \<open>TOV1\<close>; with \<open>TOIE1\<close> set the overflow enters \<open>TIMER1_OVF_vect\<close>, which
  clears \<open>TOV1\<close> again; \<open>TCCR1B = 0\<close> stops the counter. The external
  interrupt is attached for \<open>RISING\<close> edges and enabled by \<open>INT1\<close> in
  \<open>EIMSK\<close>; the pin-change interrupt fires on both edges and is enabled by
  \<open>PCINT13\<close> in \<open>PCMSK1\<close>. A handler runs to its end before the main flow
  or another handler continues.
\<close>

datatype event = T1_rising | PPS_rising | PPS_falling

definition t1_external_clock :: u8 where
  "t1_external_clock = push_bit CS12 1 OR push_bit CS11 1 OR push_bit CS10 1"

definition counter_running :: "machine \<Rightarrow> bool" where
  "counter_running s \<longleftrightarrow> TCCR1B s AND t1_external_clock = t1_external_clock"

definition trigger_enabled :: "board_config \<Rightarrow> machine \<Rightarrow> bool" where
  "trigger_enabled cfg s =
     (if GPS_PPS_ON_D2_OR_D3 cfg then bit (EIMSK s) INT1 else bit (PCMSK1 s) PCINT13)"

definition timer1_clock :: "machine \<Rightarrow> machine" where
  "timer1_clock s =
     (if counter_running s then
        (let s = s\<lparr>TCNT1 := TCNT1 s + 1\<rparr>
         in if TCNT1 s = 0 then
              (if bit (TIMSK1 s) TOIE1 then TIMER1_OVF_vect s
               else s\<lparr>TIFR1 := TIFR1 s OR push_bit TOV1 1\<rparr>)
            else s)
      else s)"

definition pps_transition :: "board_config \<Rightarrow> bool \<Rightarrow> machine \<Rightarrow> machine" where
  "pps_transition cfg rising s =
     (if GPS_PPS_ON_D2_OR_D3 cfg then
        (if rising \<and> trigger_enabled cfg s then PPSinterruptISR s else s)
      else
        (if trigger_enabled cfg s then PCINT1_vect s else s))"

fun hw_event :: "board_config \<Rightarrow> event \<Rightarrow> machine \<Rightarrow> machine" where
  "hw_event cfg T1_rising s = timer1_clock s"
| "hw_event cfg PPS_rising s = pps_transition cfg True s"
| "hw_event cfg PPS_falling s = pps_transition cfg False s"

fun hw_run :: "board_config \<Rightarrow> event list \<Rightarrow> machine \<Rightarrow> machine" where
  "hw_run cfg [] s = s"
| "hw_run cfg (e # es) s = hw_run cfg es (hw_event cfg e s)"

section \<open>The calibration controller\<close>

text \<open>
  The first critical section of the loop body of \<open>do_calibration\<close>: it arms
  the window.
\<close>

definition arm_window :: "board_config \<Rightarrow> machine \<Rightarrow> machine" where
  "arm_window cfg s =
     (let s = emit NoInterrupts (s\<lparr>global_interrupts := False\<rparr>);
          s = emit (Wr Main_flow V_g_calibration_proceed)
                (s\<lparr>g_calibration_proceed := False\<rparr>);
          s = emit (Wr Main_flow V_gpsPPScounter) (s\<lparr>gpsPPScounter := 0\<rparr>);
          s = emit (Wr Main_flow V_overflowCounter) (s\<lparr>overflowCounter := 0\<rparr>);
          s = (if GPS_PPS_ON_D2_OR_D3 cfg then
                 emit (Wr Main_flow V_EIMSK) (s\<lparr>EIMSK := push_bit INT1 1\<rparr>)
               else
                 (let s = emit (Wr Main_flow V_PCIFR)
                            (s\<lparr>PCIFR := PCIFR s AND NOT (push_bit PCIF1 1)\<rparr>);
                      s = emit (Wr Main_flow V_PCMSK1)
                            (s\<lparr>PCMSK1 := push_bit PCINT13 1\<rparr>);
                      s = emit (Wr Main_flow V_is_PPS_rising_edge)
                            (s\<lparr>is_PPS_rising_edge := False\<rparr>)
                  in s));
          s = emit (Wr Main_flow V_TCCR1B)
                (s\<lparr>TCCR1B := push_bit CS12 1 OR push_bit CS11 1 OR push_bit CS10 1\<rparr>);
          s = emit (Wr Main_flow V_TIMSK1) (s\<lparr>TIMSK1 := push_bit TOIE1 1\<rparr>);
          s = emit Interrupts (s\<lparr>global_interrupts := True\<rparr>)
      in s)"

text \<open>
  \<open>while (!g_calibration_proceed);\<close> The main flow polls the flag while the
  hardware events of the list arrive. When the events run out with the flag
  still clear, the loop spins for ever: the result is \<open>None\<close>. How often the
  flag is read between two events is not determined by the events, so only the
  read that finds the flag set is recorded.
\<close>

fun wait_for_window ::
  "board_config \<Rightarrow> event list \<Rightarrow> machine \<Rightarrow> (machine \<times> event list) option" where
  "wait_for_window cfg [] s =
     (if g_calibration_proceed s
      then Some (emit (Rd Main_flow V_g_calibration_proceed) s, [])
      else None)"
| "wait_for_window cfg (e # es) s =
     (if g_calibration_proceed s
      then Some (emit (Rd Main_flow V_g_calibration_proceed) s, e # es)
      else wait_for_window cfg es (hw_event cfg e s))"

text \<open>
  \<open>(timer_counter1 + (65536 * (int64_t)overflowCounter)) * 10ULL\<close>, where
  \<open>timer_counter1\<close> is an \<open>int\<close>, a signed 16-bit value that is sign-extended
  to 64 bits, and \<open>overflowCounter\<close> is an \<open>unsigned int\<close>.
\<close>

definition frequency_sample :: "u16 \<Rightarrow> u16 \<Rightarrow> u64" where
  "frequency_sample timer_counter1 overflow_counter =
     (scast timer_counter1 + 65536 * ucast overflow_counter) * 10"

text \<open>
  The rest of the loop body, from the second critical section to the end of
  \<open>if (i != 0)\<close>. \<open>cal_factor\<close> is an \<open>int32_t\<close> and \<open>calibration_step\<close> an
  \<open>unsigned long\<close>: the sum and the difference are computed modulo \<open>2^32\<close>.
\<close>

definition measure_and_adjust :: "u8 \<Rightarrow> u32 \<Rightarrow> machine \<Rightarrow> machine" where
  "measure_and_adjust i calibration_step s =
     (let s = emit NoInterrupts (s\<lparr>global_interrupts := False\<rparr>);
          s = emit (Rd Main_flow V_TCNT1) s;
          timer_counter1 = TCNT1 s;
          s = emit Interrupts (s\<lparr>global_interrupts := True\<rparr>);
          s = emit (Rd Main_flow V_overflowCounter) s;
          s = s\<lparr>measured_rx_freq := frequency_sample timer_counter1 (overflowCounter s)\<rparr>;
          s = s\<lparr>old_cal_factor := cal_factor s\<rparr>
      in if i \<noteq> 0 then
           (let s = (if measured_rx_freq s \<noteq> 0 then
                       (let s = (if measured_rx_freq s < target_freq s
                                 then s\<lparr>cal_factor := cal_factor s - calibration_step\<rparr>
                                 else s);
                            s = (if measured_rx_freq s > target_freq s
                                 then s\<lparr>cal_factor := cal_factor s + calibration_step\<rparr>
                                 else s)
                        in s)
                     else invoke (Swerr 8 0) s);
                s = emit (Rd Main_flow V_overflowCounter) s;
                s = invoke (Log_debug_Timer1_info i (overflowCounter s) timer_counter1) s;
                s = invoke (Log_calibration (measured_rx_freq s) (old_cal_factor s)
                              (cal_factor s)) s;
                s = invoke (Si5351bx_set_correction (cal_factor s)) s;
                s = invoke (Si5351bx_setfreq SI5351A_CAL_CLK_NUM (target_freq s)) s;
                s = invoke (Delay 10) s
            in s)
         else s)"

text \<open>One pass of the loop body.\<close>

definition calibration_pass ::
  "board_config \<Rightarrow> u8 \<Rightarrow> u32 \<Rightarrow> event list \<Rightarrow> machine \<Rightarrow> (machine \<times> event list) option" where
  "calibration_pass cfg i calibration_step evs s =
     (case wait_for_window cfg evs (arm_window cfg s) of
        None \<Rightarrow> None
      | Some (s, evs) \<Rightarrow> Some (measure_and_adjust i calibration_step s, evs))"

text \<open>\<open>for (i = 0; i < 24; i++)\<close> with \<open>byte i\<close>.\<close>

function calibration_loop ::
  "board_config \<Rightarrow> u32 \<Rightarrow> nat \<Rightarrow> event list \<Rightarrow> machine \<Rightarrow> (machine \<times> event list) option" where
  "calibration_loop cfg calibration_step i evs s =
     (if i < 24 then
        (case calibration_pass cfg (of_nat i) calibration_step evs s of
           None \<Rightarrow> None
         | Some (s, evs) \<Rightarrow> calibration_loop cfg calibration_step (Suc i) evs s)
      else Some (s, evs))"
  by pat_completeness auto
termination
  by (relation "measure (\<lambda>(cfg, step, i, evs, s). 24 - i)") auto

definition do_calibration ::
  "board_config \<Rightarrow> u32 \<Rightarrow> event list \<Rightarrow> machine \<Rightarrow> (machine \<times> event list) option" where
  "do_calibration cfg calibration_step evs s =
     (case calibration_loop cfg calibration_step 0 evs s of
        None \<Rightarrow> None
      | Some (s, evs) \<Rightarrow>
          (let s = invoke (Si5351bx_enable_clk SI5351A_CAL_CLK_NUM SI5351_CLK_OFF) s;
               s = invoke (Si5351bx_setfreq SI5351A_PARK_CLK_NUM (PARK_FREQ_HZ cfg * 100)) s
           in Some (s, evs)))"

section \<open>The read-out, step by step\<close>

text \<open>
  The four parts of the body that \<open>measure_and_adjust\<close> runs in one go: the
  critical section that copies \<open>TCNT1\<close> into \<open>timer_counter1\<close>; the statement
  that reads \<open>overflowCounter\<close> and computes the sample, with the copy of the
  old factor; the Huff-n-Puff step; and the rest of \<open>if (i != 0)\<close>, which reads
  \<open>overflowCounter\<close> again for the debug log, logs, and pushes the factor.
\<close>

definition read_TCNT1 :: "machine \<Rightarrow> machine \<times> u16" where
  "read_TCNT1 s =
     (let s = emit NoInterrupts (s\<lparr>global_interrupts := False\<rparr>);
          s = emit (Rd Main_flow V_TCNT1) s;
          timer_counter1 = TCNT1 s;
          s = emit Interrupts (s\<lparr>global_interrupts := True\<rparr>)
      in (s, timer_counter1))"

definition take_sample :: "u16 \<Rightarrow> machine \<Rightarrow> machine" where
  "take_sample timer_counter1 s =
     (let s = emit (Rd Main_flow V_overflowCounter) s;
          s = s\<lparr>measured_rx_freq := frequency_sample timer_counter1 (overflowCounter s)\<rparr>;
          s = s\<lparr>old_cal_factor := cal_factor s\<rparr>
      in s)"

definition apply_step :: "u32 \<Rightarrow> machine \<Rightarrow> machine" where
  "apply_step calibration_step s =
     (if measured_rx_freq s \<noteq> 0 then
        (let s = (if measured_rx_freq s < target_freq s
                  then s\<lparr>cal_factor := cal_factor s - calibration_step\<rparr>
                  else s);
             s = (if measured_rx_freq s > target_freq s
                  then s\<lparr>cal_factor := cal_factor s + calibration_step\<rparr>
                  else s)
         in s)
      else invoke (Swerr 8 0) s)"

definition log_and_push :: "u8 \<Rightarrow> u16 \<Rightarrow> machine \<Rightarrow> machine" where
  "log_and_push i timer_counter1 s =
     (let s = emit (Rd Main_flow V_overflowCounter) s;
          s = invoke (Log_debug_Timer1_info i (overflowCounter s) timer_counter1) s;
          s = invoke (Log_calibration (measured_rx_freq s) (old_cal_factor s)
                        (cal_factor s)) s;
          s = invoke (Si5351bx_set_correction (cal_factor s)) s;
          s = invoke (Si5351bx_setfreq SI5351A_CAL_CLK_NUM (target_freq s)) s;
          s = invoke (Delay 10) s
      in s)"

text \<open>
  The same steps with hardware events arriving where interrupts are on: \<open>e1\<close>
  between the end of the wait and the critical section, \<open>e2\<close> between the read
  of \<open>TCNT1\<close> and the first read of \<open>overflowCounter\<close>, \<open>e3\<close> before the read
  of \<open>overflowCounter\<close> for the debug log.
\<close>

definition measure_and_adjust_among ::
  "board_config \<Rightarrow> event list \<Rightarrow> event list \<Rightarrow> event list \<Rightarrow> u8 \<Rightarrow> u32 \<Rightarrow> machine
     \<Rightarrow> machine" where
  "measure_and_adjust_among cfg e1 e2 e3 i calibration_step s =
     (case read_TCNT1 (hw_run cfg e1 s) of
        (s, timer_counter1) \<Rightarrow>
          (let s = take_sample timer_counter1 (hw_run cfg e2 s)
           in if i \<noteq> 0
              then log_and_push i timer_counter1 (hw_run cfg e3 (apply_step calibration_step s))
              else s))"

definition calibration_pass_among ::
  "board_config \<Rightarrow> event list \<Rightarrow> event list \<Rightarrow> event list \<Rightarrow> u8 \<Rightarrow> u32 \<Rightarrow> event list
     \<Rightarrow> machine \<Rightarrow> (machine \<times> event list) option" where
  "calibration_pass_among cfg e1 e2 e3 i calibration_step evs s =
     (case wait_for_window cfg evs (arm_window cfg s) of
        None \<Rightarrow> None
      | Some (s, evs) \<Rightarrow>
          Some (measure_and_adjust_among cfg e1 e2 e3 i calibration_step s, evs))"

section \<open>The PPS gate as the specification describes it\<close>

text \<open>
  The qualifying edges of an event stream. With the external interrupt they are
  the rising edges of the PPS signal. With the pin-change interrupt every
  transition of the signal triggers, and the odd-numbered transitions qualify.
\<close>

definition pps_transitions :: "event list \<Rightarrow> nat" where
  "pps_transitions evs = length (filter (\<lambda>e. e \<noteq> T1_rising) evs)"

definition qualifying_edges :: "board_config \<Rightarrow> event list \<Rightarrow> nat" where
  "qualifying_edges cfg evs =
     (if GPS_PPS_ON_D2_OR_D3 cfg then length (filter (\<lambda>e. e = PPS_rising) evs)
      else (pps_transitions evs + 1) div 2)"

text \<open>
  The two phases of a window: open with \<open>n\<close> edges counted so far, and closed.
\<close>

definition gate_open :: "board_config \<Rightarrow> nat \<Rightarrow> machine \<Rightarrow> bool" where
  "gate_open cfg n s \<longleftrightarrow>
     \<not> g_calibration_proceed s \<and> gpsPPScounter s = of_nat n \<and> n < 11 \<and>
     TCCR1B s = t1_external_clock \<and>
     (if GPS_PPS_ON_D2_OR_D3 cfg then EIMSK s = push_bit INT1 1
      else PCMSK1 s = push_bit PCINT13 1)"

definition gate_closed :: "board_config \<Rightarrow> machine \<Rightarrow> bool" where
  "gate_closed cfg s \<longleftrightarrow>
     g_calibration_proceed s \<and> gpsPPScounter s = 11 \<and> TCCR1B s = 0 \<and>
     (if GPS_PPS_ON_D2_OR_D3 cfg then EIMSK s = 0
      else PCMSK1 s = 0 \<and> \<not> is_PPS_rising_edge s)"

text \<open>
  A PPS signal that is low when the window is armed: rising and falling
  transitions alternate, beginning with a rising one. The flag is the level of
  the signal.
\<close>

fun pulse_stream :: "bool \<Rightarrow> event list \<Rightarrow> bool" where
  "pulse_stream high [] = True"
| "pulse_stream high (T1_rising # es) = pulse_stream high es"
| "pulse_stream high (PPS_rising # es) = (\<not> high \<and> pulse_stream True es)"
| "pulse_stream high (PPS_falling # es) = (high \<and> pulse_stream False es)"

text \<open>
  The part of the state that the timer, the overflow handler and the edge
  counting read and write, compared between two machines.
\<close>

definition same_gate :: "machine \<Rightarrow> machine \<Rightarrow> bool" where
  "same_gate a b \<longleftrightarrow>
     TCNT1 a = TCNT1 b \<and> TCCR1B a = TCCR1B b \<and> TIMSK1 a = TIMSK1 b \<and>
     TIFR1 a = TIFR1 b \<and> overflowCounter a = overflowCounter b \<and>
     gpsPPScounter a = gpsPPScounter b \<and>
     g_calibration_proceed a = g_calibration_proceed b"

text \<open>What the controller can observe of the gate and the reference counter.\<close>

definition gate_view :: "board_config \<Rightarrow> machine \<Rightarrow> u16 \<times> u16 \<times> u16 \<times> bool \<times> bool \<times> bool" where
  "gate_view cfg s =
     (gpsPPScounter s, TCNT1 s, overflowCounter s, counter_running s,
      trigger_enabled cfg s, g_calibration_proceed s)"

section \<open>Reading the shared counters\<close>

text \<open>
  Predicates on the recorded accesses. \<open>reads_masked P off t\<close>: every access of
  \<open>t\<close> that satisfies \<open>P\<close> happens between \<open>noInterrupts()\<close> and
  \<open>interrupts()\<close>; \<open>off\<close> says whether interrupts are off at the start.
  \<open>reads_unmasked P off t\<close>: every access of \<open>t\<close> that satisfies \<open>P\<close> happens
  while interrupts are on.
  \<open>reads_unarmed armed t\<close>: no read of \<open>TCNT1\<close> or \<open>overflowCounter\<close> by the
  main flow happens between the main flow's clearing of
  \<open>g_calibration_proceed\<close> and the handler's setting of it; \<open>armed\<close> says
  whether the window is armed at the start.
\<close>

fun by_handler :: "access \<Rightarrow> bool" where
  "by_handler (Rd a v) = (a = Handler)"
| "by_handler (Wr a v) = (a = Handler)"
| "by_handler NoInterrupts = False"
| "by_handler Interrupts = False"

definition reads_of :: "volatile \<Rightarrow> access \<Rightarrow> bool" where
  "reads_of v a \<longleftrightarrow> a = Rd Main_flow v"

definition counter_read :: "access \<Rightarrow> bool" where
  "counter_read a \<longleftrightarrow> reads_of V_TCNT1 a \<or> reads_of V_overflowCounter a"

fun reads_masked :: "(access \<Rightarrow> bool) \<Rightarrow> bool \<Rightarrow> access list \<Rightarrow> bool" where
  "reads_masked P off [] = True"
| "reads_masked P off (a # t) =
     ((if P a then off else True) \<and>
      reads_masked P (if a = NoInterrupts then True else if a = Interrupts then False else off) t)"

fun reads_unmasked :: "(access \<Rightarrow> bool) \<Rightarrow> bool \<Rightarrow> access list \<Rightarrow> bool" where
  "reads_unmasked P off [] = True"
| "reads_unmasked P off (a # t) =
     ((if P a then \<not> off else True) \<and>
      reads_unmasked P (if a = NoInterrupts then True else if a = Interrupts then False else off) t)"

fun reads_unarmed :: "bool \<Rightarrow> access list \<Rightarrow> bool" where
  "reads_unarmed armed [] = True"
| "reads_unarmed armed (a # t) =
     ((if counter_read a then \<not> armed else True) \<and>
      reads_unarmed
        (if a = Wr Main_flow V_g_calibration_proceed then True
         else if a = Wr Handler V_g_calibration_proceed then False else armed) t)"

text \<open>The accesses of the critical section that arms the window.\<close>

definition arm_accesses :: "board_config \<Rightarrow> access list" where
  "arm_accesses cfg =
     (if GPS_PPS_ON_D2_OR_D3 cfg then
        [NoInterrupts, Wr Main_flow V_g_calibration_proceed, Wr Main_flow V_gpsPPScounter,
         Wr Main_flow V_overflowCounter, Wr Main_flow V_EIMSK, Wr Main_flow V_TCCR1B,
         Wr Main_flow V_TIMSK1, Interrupts]
      else
        [NoInterrupts, Wr Main_flow V_g_calibration_proceed, Wr Main_flow V_gpsPPScounter,
         Wr Main_flow V_overflowCounter, Wr Main_flow V_PCIFR, Wr Main_flow V_PCMSK1,
         Wr Main_flow V_is_PPS_rising_edge, Wr Main_flow V_TCCR1B,
         Wr Main_flow V_TIMSK1, Interrupts])"

text \<open>The accesses one pass of the loop body adds to the record.\<close>

definition pass_trace ::
  "board_config \<Rightarrow> u8 \<Rightarrow> u32 \<Rightarrow> event list \<Rightarrow> machine \<Rightarrow> access list" where
  "pass_trace cfg i calibration_step evs s =
     (case calibration_pass cfg i calibration_step evs s of
        None \<Rightarrow> []
      | Some (s', rest) \<Rightarrow> drop (length (vtrace s)) (vtrace s'))"

text \<open>The correction factor a call leaves behind, if the call returns.\<close>

definition committed_correction :: "(machine \<times> event list) option \<Rightarrow> u32 option" where
  "committed_correction r = map_option (cal_factor \<circ> fst) r"

text \<open>The sample a pass has taken, if the pass returns.\<close>

definition measured_sample :: "(machine \<times> event list) option \<Rightarrow> u64 option" where
  "measured_sample r = map_option (measured_rx_freq \<circ> fst) r"

section \<open>The correction steps of a whole call\<close>

text \<open>
  The sample that a window with \<open>k\<close> counted reference edges yields, and the
  correction factor after the passes \<open>i\<close>, \<open>i + 1\<close>, ... over windows with the
  given numbers of counted edges: the Huff-n-Puff step of the loop body,
  repeated.
\<close>

definition sample_of_edges :: "nat \<Rightarrow> u64" where
  "sample_of_edges k = frequency_sample (of_nat k) (of_nat (k div 65536))"

definition huff_n_puff :: "u64 \<Rightarrow> u32 \<Rightarrow> nat \<Rightarrow> u64 \<Rightarrow> u32 \<Rightarrow> u32" where
  "huff_n_puff target calibration_step i measured c =
     (if i \<noteq> 0 then
        (if measured \<noteq> 0 then
           (let c = (if measured < target then c - calibration_step else c);
                c = (if measured > target then c + calibration_step else c)
            in c)
         else c)
      else c)"

fun corrections :: "u64 \<Rightarrow> u32 \<Rightarrow> nat \<Rightarrow> nat list \<Rightarrow> u32 \<Rightarrow> u32" where
  "corrections target calibration_step i [] c = c"
| "corrections target calibration_step i (k # ks) c =
     corrections target calibration_step (Suc i) ks
       (huff_n_puff target calibration_step i (sample_of_edges k) c)"

section \<open>Example inputs\<close>

text \<open>
  A build with the PPS signal on an external-interrupt pin and a target of
  3.2 MHz, written in hundredths of a hertz, and the same build with the PPS
  signal on a pin-change pin.
\<close>

definition bench_config :: board_config where
  "bench_config =
     \<lparr>GPS_PPS_ON_D2_OR_D3 = True, SI5351A_CLK_FREQ_CORRECTION = 0,
      SI5351_CAL_TARGET_FREQ = 320000000, PARK_FREQ_HZ = 108000000\<rparr>"

definition clone_config :: board_config where
  "clone_config = bench_config\<lparr>GPS_PPS_ON_D2_OR_D3 := False\<rparr>"

text \<open>
  \<open>k\<close> PPS pulses, each with one reference edge while the signal is high.
\<close>

definition pulses :: "nat \<Rightarrow> event list" where
  "pulses k = concat (replicate k [PPS_rising, T1_rising, PPS_falling])"

text \<open>
  A window for the external-interrupt build: eleven rising PPS edges, with \<open>k\<close>
  edges of the reference clock after the first of them.
\<close>

definition reference_window :: "nat \<Rightarrow> event list" where
  "reference_window k = PPS_rising # replicate k T1_rising @ replicate 10 PPS_rising"

text \<open>
  Streams of 24 windows for the bench build. In \<open>steady_low\<close> every window
  counts 31 999 999 reference edges, one below the 32 000 000 that the target
  frequency gives in ten seconds; in \<open>steady_high\<close> every window counts one
  above; in \<open>signal_lost\<close> the window of pass 5 counts no edge at all.
\<close>

definition steady_low :: "nat list" where
  "steady_low = replicate 24 31999999"

definition steady_high :: "nat list" where
  "steady_high = replicate 24 32000001"

definition signal_lost :: "nat list" where
  "signal_lost = replicate 5 31999999 @ [0] @ replicate 18 31999999"

text \<open>The bench build with the largest correction factor an \<open>int32_t\<close> holds.\<close>

definition saturated_config :: board_config where
  "saturated_config = bench_config\<lparr>SI5351A_CLK_FREQ_CORRECTION := 2147483647\<rparr>"

text \<open>
  The state in which a window has just been closed with \<open>raw\<close> in \<open>TCNT1\<close> and
  \<open>ovf\<close> in \<open>overflowCounter\<close>.
\<close>

definition window_end :: "u16 \<Rightarrow> u16 \<Rightarrow> machine" where
  "window_end raw ovf =
     (power_on bench_config)
       \<lparr>TCNT1 := raw, overflowCounter := ovf, gpsPPScounter := 11,
        g_calibration_proceed := True\<rparr>"

section \<open>Field lemmas\<close>

lemma emit_fields [simp]:
  "TCNT1 (emit a s) = TCNT1 s" "TCCR1B (emit a s) = TCCR1B s"
  "TIMSK1 (emit a s) = TIMSK1 s" "TIFR1 (emit a s) = TIFR1 s"
  "EIMSK (emit a s) = EIMSK s" "PCMSK1 (emit a s) = PCMSK1 s"
  "PCIFR (emit a s) = PCIFR s" "global_interrupts (emit a s) = global_interrupts s"
  "old_cal_factor (emit a s) = old_cal_factor s" "cal_factor (emit a s) = cal_factor s"
  "measured_rx_freq (emit a s) = measured_rx_freq s" "target_freq (emit a s) = target_freq s"
  "overflowCounter (emit a s) = overflowCounter s" "gpsPPScounter (emit a s) = gpsPPScounter s"
  "g_calibration_proceed (emit a s) = g_calibration_proceed s"
  "is_PPS_rising_edge (emit a s) = is_PPS_rising_edge s"
  "calls (emit a s) = calls s" "vtrace (emit a s) = vtrace s @ [a]"
  by (simp_all add: emit_def)

lemma invoke_fields [simp]:
  "TCNT1 (invoke c s) = TCNT1 s" "TCCR1B (invoke c s) = TCCR1B s"
  "TIMSK1 (invoke c s) = TIMSK1 s" "TIFR1 (invoke c s) = TIFR1 s"
  "EIMSK (invoke c s) = EIMSK s" "PCMSK1 (invoke c s) = PCMSK1 s"
  "PCIFR (invoke c s) = PCIFR s" "global_interrupts (invoke c s) = global_interrupts s"
  "old_cal_factor (invoke c s) = old_cal_factor s" "cal_factor (invoke c s) = cal_factor s"
  "measured_rx_freq (invoke c s) = measured_rx_freq s" "target_freq (invoke c s) = target_freq s"
  "overflowCounter (invoke c s) = overflowCounter s" "gpsPPScounter (invoke c s) = gpsPPScounter s"
  "g_calibration_proceed (invoke c s) = g_calibration_proceed s"
  "is_PPS_rising_edge (invoke c s) = is_PPS_rising_edge s"
  "vtrace (invoke c s) = vtrace s" "calls (invoke c s) = calls s @ [c]"
  by (simp_all add: invoke_def)

lemma window_end_fields [simp]:
  "TCNT1 (window_end raw ovf) = raw" "overflowCounter (window_end raw ovf) = ovf"
  "cal_factor (window_end raw ovf) = 0" "target_freq (window_end raw ovf) = 320000000"
  "calls (window_end raw ovf) = []"
  by (simp_all add: window_end_def power_on_def bench_config_def)

section \<open>The frequency sample\<close>

lemma frequency_sample_int:
  "frequency_sample timer_counter1 overflow_counter =
     word_of_int ((sint timer_counter1 + 65536 * uint overflow_counter) * 10)"
  by (simp only: frequency_sample_def scast_eq ucast_eq of_int_add of_int_mult of_int_numeral)

lemma sint_below_half:
  fixes w :: u16
  assumes "w < 32768"
  shows "sint w = uint w"
proof -
  have a: "uint w < 32768"
    using assms by (simp add: word_less_def)
  have b: "- 32768 \<le> uint w"
    using uint_ge_0 [of w] by linarith
  have "signed_take_bit 15 (uint w) = uint w"
    by (rule signed_take_bit_int_eq_self) (use a b in simp_all)
  then show ?thesis
    by (simp add: sint_uint)
qed

text \<open>
  While the counter value is below \<open>2^15\<close> the sample is the number of counted
  edges times ten.
\<close>

lemma frequency_sample_unsigned:
  assumes "timer_counter1 < 32768"
  shows "uint (frequency_sample timer_counter1 overflow_counter) =
           (uint timer_counter1 + 65536 * uint overflow_counter) * 10"
proof -
  define x where "x = (uint timer_counter1 + 65536 * uint overflow_counter) * 10"
  have r: "0 \<le> uint timer_counter1" "uint timer_counter1 < 65536"
    using uint_lt2p [of timer_counter1] by simp_all
  have v: "0 \<le> uint overflow_counter" "uint overflow_counter < 65536"
    using uint_lt2p [of overflow_counter] by simp_all
  have "x < 2 ^ 64" "0 \<le> x"
    using r v by (simp_all add: x_def)
  then have "x mod 2 ^ 64 = x"
    by simp
  moreover have "frequency_sample timer_counter1 overflow_counter = (word_of_int x :: u64)"
    unfolding frequency_sample_int sint_below_half [OF assms] x_def ..
  ultimately show ?thesis
    unfolding x_def [symmetric] by (simp only: uint_word_of_int len_of_numeral_defs) simp
qed

section \<open>One measurement and its correction\<close>

lemma measured_rx_freq_measure [simp]:
  "measured_rx_freq (measure_and_adjust i step s) =
     frequency_sample (TCNT1 s) (overflowCounter s)"
  by (simp add: measure_and_adjust_def Let_def)

lemma target_freq_measure [simp]:
  "target_freq (measure_and_adjust i step s) = target_freq s"
  by (simp add: measure_and_adjust_def Let_def)

lemma cal_factor_measure:
  "cal_factor (measure_and_adjust i step s) =
     (let m = frequency_sample (TCNT1 s) (overflowCounter s) in
      if i = 0 \<or> m = 0 then cal_factor s
      else if m < target_freq s then cal_factor s - step
      else if m > target_freq s then cal_factor s + step
      else cal_factor s)"
  by (auto simp add: measure_and_adjust_def Let_def)

lemma measure_fields [simp]:
  "TCNT1 (measure_and_adjust i step s) = TCNT1 s"
  "TCCR1B (measure_and_adjust i step s) = TCCR1B s"
  "TIMSK1 (measure_and_adjust i step s) = TIMSK1 s"
  "TIFR1 (measure_and_adjust i step s) = TIFR1 s"
  "EIMSK (measure_and_adjust i step s) = EIMSK s"
  "PCMSK1 (measure_and_adjust i step s) = PCMSK1 s"
  "PCIFR (measure_and_adjust i step s) = PCIFR s"
  "global_interrupts (measure_and_adjust i step s) = True"
  "old_cal_factor (measure_and_adjust i step s) = cal_factor s"
  "overflowCounter (measure_and_adjust i step s) = overflowCounter s"
  "gpsPPScounter (measure_and_adjust i step s) = gpsPPScounter s"
  "g_calibration_proceed (measure_and_adjust i step s) = g_calibration_proceed s"
  "is_PPS_rising_edge (measure_and_adjust i step s) = is_PPS_rising_edge s"
  "vtrace (measure_and_adjust i step s) = vtrace s @
         [NoInterrupts, Rd Main_flow V_TCNT1, Interrupts, Rd Main_flow V_overflowCounter] @
         (if i \<noteq> 0 then [Rd Main_flow V_overflowCounter] else [])"
  by (simp_all add: measure_and_adjust_def Let_def)

lemma calls_measure:
  "calls (measure_and_adjust i step s) = calls s @
     (if i = 0 then []
      else (if frequency_sample (TCNT1 s) (overflowCounter s) = 0 then [Swerr 8 0] else []) @
        [Log_debug_Timer1_info i (overflowCounter s) (TCNT1 s),
         Log_calibration (frequency_sample (TCNT1 s) (overflowCounter s)) (cal_factor s)
           (cal_factor (measure_and_adjust i step s)),
         Si5351bx_set_correction (cal_factor (measure_and_adjust i step s)),
         Si5351bx_setfreq SI5351A_CAL_CLK_NUM (target_freq s),
         Delay 10])"
  by (simp add: measure_and_adjust_def Let_def)

lemma sint_add_no_wrap:
  fixes c d :: u32
  assumes "sint c + uint d < 2147483648"
  shows "sint (c + d) = sint c + uint d"
proof -
  have lo: "- 2147483648 \<le> sint c"
    using sint_ge [of c] by simp
  have eq: "c + d = word_of_int (sint c + uint d)"
    by (simp only: of_int_add word_of_int_uint of_int_sint scast_id)
  have "sint (c + d) = signed_take_bit 31 (sint c + uint d)"
    by (subst eq) (simp only: sint_sbintrunc', simp)
  also have "\<dots> = sint c + uint d"
  proof (rule signed_take_bit_int_eq_self)
    have "- 2147483648 \<le> sint c + uint d"
      using lo uint_ge_0 [of d] by linarith
    then show "- (2 ^ 31) \<le> sint c + uint d"
      by simp
    show "sint c + uint d < 2 ^ 31"
      using assms by simp
  qed
  finally show ?thesis .
qed

lemma sint_diff_no_wrap:
  fixes c d :: u32
  assumes "- 2147483648 \<le> sint c - uint d"
  shows "sint (c - d) = sint c - uint d"
proof -
  have hi: "sint c < 2147483648"
    using sint_lt [of c] by simp
  have eq: "c - d = word_of_int (sint c - uint d)"
    by (simp only: of_int_diff word_of_int_uint of_int_sint scast_id)
  have "sint (c - d) = signed_take_bit 31 (sint c - uint d)"
    by (subst eq) (simp only: sint_sbintrunc', simp)
  also have "\<dots> = sint c - uint d"
  proof (rule signed_take_bit_int_eq_self)
    show "- (2 ^ 31) \<le> sint c - uint d"
      using assms by simp
    have "sint c - uint d < 2147483648"
      using hi uint_ge_0 [of d] by linarith
    then show "sint c - uint d < 2 ^ 31"
      by simp
  qed
  finally show ?thesis .
qed

text \<open>
  C1 as stated fails where the 32-bit arithmetic wraps around. From the
  smallest \<open>int32_t\<close>, a sample below the target and a step of one take the
  factor to the largest \<open>int32_t\<close>: it goes up by \<open>2^32 - 1\<close>, not down by one.
  From zero, a sample above the target and a step of \<open>2^32 - 1\<close> take the
  factor to \<open>-1\<close>: it goes down by one, not up by the step.
\<close>

theorem step_wraps_counterexample:
  "(1 :: u8) \<noteq> 0 \<and>
   measured_rx_freq (measure_and_adjust 1 1 ((window_end 18431 488)\<lparr>cal_factor := 2147483648\<rparr>))
     \<noteq> 0 \<and>
   measured_rx_freq (measure_and_adjust 1 1 ((window_end 18431 488)\<lparr>cal_factor := 2147483648\<rparr>))
     < target_freq ((window_end 18431 488)\<lparr>cal_factor := 2147483648\<rparr>) \<and>
   sint (cal_factor ((window_end 18431 488)\<lparr>cal_factor := 2147483648\<rparr>)) = - 2147483648 \<and>
   sint (cal_factor
      (measure_and_adjust 1 1 ((window_end 18431 488)\<lparr>cal_factor := 2147483648\<rparr>)))
     = 2147483647 \<and>
   measured_rx_freq (measure_and_adjust 1 4294967295 (window_end 18433 488)) \<noteq> 0 \<and>
   measured_rx_freq (measure_and_adjust 1 4294967295 (window_end 18433 488))
     > target_freq (window_end 18433 488) \<and>
   sint (cal_factor (window_end 18433 488)) = 0 \<and>
   uint (4294967295 :: u32) = 4294967295 \<and>
   sint (cal_factor (measure_and_adjust 1 4294967295 (window_end 18433 488))) = - 1"
  by (simp add: cal_factor_measure frequency_sample_def)

text \<open>
  C1, amended. On a pass with \<open>i \<noteq> 0\<close> and a sample that is not zero: when the
  sample is below the target the new correction factor is the old one minus
  \<open>calibration_step\<close> in 32-bit wrap-around arithmetic, so that as an
  \<open>int32_t\<close> it is lower by exactly \<open>calibration_step\<close> whenever that difference
  is not below \<open>-2^31\<close>; when the sample is above the target the new factor is
  the old one plus \<open>calibration_step\<close> in the same arithmetic, higher by
  exactly \<open>calibration_step\<close> whenever that sum is below \<open>2^31\<close>; when sample
  and target are equal the factor is unchanged.
\<close>

theorem huff_n_puff_step:
  assumes "i \<noteq> 0" and "s' = measure_and_adjust i calibration_step s"
    and "measured_rx_freq s' \<noteq> 0"
  shows "(measured_rx_freq s' < target_freq s \<longrightarrow>
            cal_factor s' = cal_factor s - calibration_step \<and>
            (- 2147483648 \<le> sint (cal_factor s) - uint calibration_step \<longrightarrow>
               sint (cal_factor s') = sint (cal_factor s) - uint calibration_step)) \<and>
         (measured_rx_freq s' > target_freq s \<longrightarrow>
            cal_factor s' = cal_factor s + calibration_step \<and>
            (sint (cal_factor s) + uint calibration_step < 2147483648 \<longrightarrow>
               sint (cal_factor s') = sint (cal_factor s) + uint calibration_step)) \<and>
         (measured_rx_freq s' = target_freq s \<longrightarrow> cal_factor s' = cal_factor s)"
proof -
  have w: "(measured_rx_freq s' < target_freq s \<longrightarrow>
            cal_factor s' = cal_factor s - calibration_step) \<and>
         (measured_rx_freq s' > target_freq s \<longrightarrow>
            cal_factor s' = cal_factor s + calibration_step) \<and>
         (measured_rx_freq s' = target_freq s \<longrightarrow> cal_factor s' = cal_factor s)"
    using assms by (auto simp add: cal_factor_measure Let_def)
  then show ?thesis
    by (auto simp add: sint_add_no_wrap sint_diff_no_wrap)
qed

theorem huff_n_puff_step_witness:
  "(1 :: u8) \<noteq> 0 \<and>
   measured_rx_freq (measure_and_adjust 1 50 (window_end 18431 488)) \<noteq> 0 \<and>
   measured_rx_freq (measure_and_adjust 1 50 (window_end 18431 488))
     < target_freq (window_end 18431 488) \<and>
   - 2147483648 \<le> sint (cal_factor (window_end 18431 488)) - uint (50 :: u32) \<and>
   cal_factor (measure_and_adjust 1 50 (window_end 18431 488))
     = cal_factor (window_end 18431 488) - 50 \<and>
   sint (cal_factor (measure_and_adjust 1 50 (window_end 18431 488)))
     = sint (cal_factor (window_end 18431 488)) - uint (50 :: u32) \<and>
   measured_rx_freq (measure_and_adjust 1 50 (window_end 18433 488))
     > target_freq (window_end 18433 488) \<and>
   sint (cal_factor (window_end 18433 488)) + uint (50 :: u32) < 2147483648 \<and>
   cal_factor (measure_and_adjust 1 50 (window_end 18433 488))
     = cal_factor (window_end 18433 488) + 50 \<and>
   sint (cal_factor (measure_and_adjust 1 50 (window_end 18433 488)))
     = sint (cal_factor (window_end 18433 488)) + uint (50 :: u32) \<and>
   measured_rx_freq (measure_and_adjust 1 50 (window_end 18432 488))
     = target_freq (window_end 18432 488) \<and>
   cal_factor (measure_and_adjust 1 50 (window_end 18432 488))
     = cal_factor (window_end 18432 488)"
  using huff_n_puff_step [OF _ refl, of 1 50 "window_end 18431 488"]
    huff_n_puff_step [OF _ refl, of 1 50 "window_end 18433 488"]
    huff_n_puff_step [OF _ refl, of 1 50 "window_end 18432 488"]
  by (simp add: frequency_sample_def)

text \<open>
  C6 as stated has the two directions exchanged, and it does not except the
  sample zero: above the target the factor is raised, not lowered, and a
  sample of zero, which is below every positive target, leaves the factor as
  it is.
\<close>

theorem direction_as_claimed_counterexample:
  "target_freq (window_end 18433 488)
     < measured_rx_freq (measure_and_adjust 1 50 (window_end 18433 488)) \<and>
   cal_factor (measure_and_adjust 1 50 (window_end 18433 488))
     = cal_factor (window_end 18433 488) + 50 \<and>
   cal_factor (measure_and_adjust 1 50 (window_end 18433 488))
     \<noteq> cal_factor (window_end 18433 488) - 50 \<and>
   measured_rx_freq (measure_and_adjust 1 50 (window_end 0 0))
     < target_freq (window_end 0 0) \<and>
   cal_factor (measure_and_adjust 1 50 (window_end 0 0)) = cal_factor (window_end 0 0) \<and>
   cal_factor (measure_and_adjust 1 50 (window_end 0 0)) \<noteq> cal_factor (window_end 0 0) + 50"
  by (simp add: cal_factor_measure frequency_sample_def)

text \<open>
  C6, amended. On a pass with \<open>i \<noteq> 0\<close> and a sample that is not zero: a sample
  above the target raises the correction factor by exactly \<open>calibration_step\<close>,
  a sample below the target lowers it by exactly \<open>calibration_step\<close>, in 32-bit
  wrap-around arithmetic, and the factor changes whenever the step is not zero.
\<close>

theorem huff_n_puff_direction:
  assumes "i \<noteq> 0" and "s' = measure_and_adjust i calibration_step s"
    and "measured_rx_freq s' \<noteq> 0"
  shows "(measured_rx_freq s' > target_freq s \<longrightarrow>
            cal_factor s' = cal_factor s + calibration_step \<and>
            (calibration_step \<noteq> 0 \<longrightarrow> cal_factor s' \<noteq> cal_factor s)) \<and>
         (measured_rx_freq s' < target_freq s \<longrightarrow>
            cal_factor s' = cal_factor s - calibration_step \<and>
            (calibration_step \<noteq> 0 \<longrightarrow> cal_factor s' \<noteq> cal_factor s))"
  using assms by (auto simp add: cal_factor_measure Let_def)

theorem huff_n_puff_direction_witness:
  "(1 :: u8) \<noteq> 0 \<and> (50 :: u32) \<noteq> 0 \<and>
   measured_rx_freq (measure_and_adjust 1 50 (window_end 18433 488)) \<noteq> 0 \<and>
   measured_rx_freq (measure_and_adjust 1 50 (window_end 18433 488))
     > target_freq (window_end 18433 488) \<and>
   cal_factor (measure_and_adjust 1 50 (window_end 18433 488))
     = cal_factor (window_end 18433 488) + 50 \<and>
   cal_factor (measure_and_adjust 1 50 (window_end 18433 488))
     \<noteq> cal_factor (window_end 18433 488) \<and>
   measured_rx_freq (measure_and_adjust 1 50 (window_end 18431 488)) \<noteq> 0 \<and>
   measured_rx_freq (measure_and_adjust 1 50 (window_end 18431 488))
     < target_freq (window_end 18431 488) \<and>
   cal_factor (measure_and_adjust 1 50 (window_end 18431 488))
     = cal_factor (window_end 18431 488) - 50 \<and>
   cal_factor (measure_and_adjust 1 50 (window_end 18431 488))
     \<noteq> cal_factor (window_end 18431 488)"
  using huff_n_puff_direction [OF _ refl, of 1 50 "window_end 18433 488"]
    huff_n_puff_direction [OF _ refl, of 1 50 "window_end 18431 488"]
  by (simp add: frequency_sample_def)

section \<open>What the interrupt handlers write\<close>

lemmas bit_numbers =
  CS10_def CS11_def CS12_def TOIE1_def TOV1_def INT1_def PCINT13_def PCIF1_def

lemma t1_external_clock_value [simp]: "t1_external_clock = 7"
  by (simp add: t1_external_clock_def bit_numbers)

lemma TIMER1_OVF_vect_eq:
  "TIMER1_OVF_vect s =
     s\<lparr>overflowCounter := overflowCounter s + 1,
       vtrace := vtrace s @ [Rd Handler V_overflowCounter, Wr Handler V_overflowCounter]\<rparr>"
  by (simp add: TIMER1_OVF_vect_def Let_def emit_def)

lemma count_pps_edge_eq:
  "count_pps_edge s =
     s\<lparr>TCNT1 := (if gpsPPScounter s = 0 then 0 else TCNT1 s),
       TIFR1 := (if gpsPPScounter s = 0 then TIFR1 s AND NOT 1 else TIFR1 s),
       overflowCounter := (if gpsPPScounter s = 0 then 0 else overflowCounter s),
       gpsPPScounter := gpsPPScounter s + 1,
       vtrace := vtrace s @
         [Rd Handler V_gpsPPScounter, Wr Handler V_gpsPPScounter, Rd Handler V_gpsPPScounter] @
         (if gpsPPScounter s = 0
          then [Wr Handler V_TCNT1, Wr Handler V_TIFR1, Wr Handler V_overflowCounter]
          else [])\<rparr>"
  by (simp add: count_pps_edge_def Let_def emit_def bit_numbers)

lemma PPSinterruptISR_eq:
  "PPSinterruptISR s =
     s\<lparr>TCNT1 := (if gpsPPScounter s = 0 then 0 else TCNT1 s),
       TCCR1B := (if gpsPPScounter s = 10 then 0 else TCCR1B s),
       TIFR1 := (if gpsPPScounter s = 0 then TIFR1 s AND NOT 1 else TIFR1 s),
       EIMSK := (if gpsPPScounter s = 10 then 0 else EIMSK s),
       overflowCounter := (if gpsPPScounter s = 0 then 0 else overflowCounter s),
       gpsPPScounter := gpsPPScounter s + 1,
       g_calibration_proceed := (gpsPPScounter s = 10 \<or> g_calibration_proceed s),
       vtrace := vtrace s @
         [Rd Handler V_gpsPPScounter, Wr Handler V_gpsPPScounter, Rd Handler V_gpsPPScounter] @
         (if gpsPPScounter s = 0
          then [Wr Handler V_TCNT1, Wr Handler V_TIFR1, Wr Handler V_overflowCounter]
          else []) @
         [Rd Handler V_gpsPPScounter] @
         (if gpsPPScounter s = 10
          then [Wr Handler V_EIMSK, Wr Handler V_TCCR1B, Wr Handler V_g_calibration_proceed]
          else [])\<rparr>"
  by (simp add: PPSinterruptISR_def count_pps_edge_eq Let_def emit_def bit_numbers)

lemma PCINT1_vect_eq:
  "PCINT1_vect s =
     (if is_PPS_rising_edge s then
        s\<lparr>is_PPS_rising_edge := False,
          vtrace := vtrace s @
            [Rd Handler V_is_PPS_rising_edge, Wr Handler V_is_PPS_rising_edge,
             Rd Handler V_is_PPS_rising_edge]\<rparr>
      else
        s\<lparr>TCNT1 := (if gpsPPScounter s = 0 then 0 else TCNT1 s),
          TCCR1B := (if gpsPPScounter s = 10 then 0 else TCCR1B s),
          TIFR1 := (if gpsPPScounter s = 0 then TIFR1 s AND NOT 1 else TIFR1 s),
          PCMSK1 := (if gpsPPScounter s = 10 then 0 else PCMSK1 s),
          overflowCounter := (if gpsPPScounter s = 0 then 0 else overflowCounter s),
          gpsPPScounter := gpsPPScounter s + 1,
          g_calibration_proceed := (gpsPPScounter s = 10 \<or> g_calibration_proceed s),
          is_PPS_rising_edge := (gpsPPScounter s \<noteq> 10),
          vtrace := vtrace s @
            [Rd Handler V_is_PPS_rising_edge, Wr Handler V_is_PPS_rising_edge,
             Rd Handler V_is_PPS_rising_edge,
             Rd Handler V_gpsPPScounter, Wr Handler V_gpsPPScounter,
             Rd Handler V_gpsPPScounter] @
            (if gpsPPScounter s = 0
             then [Wr Handler V_TCNT1, Wr Handler V_TIFR1, Wr Handler V_overflowCounter]
             else []) @
            [Rd Handler V_gpsPPScounter] @
            (if gpsPPScounter s = 10
             then [Wr Handler V_PCMSK1, Wr Handler V_TCCR1B, Wr Handler V_is_PPS_rising_edge,
                   Wr Handler V_g_calibration_proceed]
             else [])\<rparr>)"
  by (simp add: PCINT1_vect_def count_pps_edge_eq Let_def emit_def bit_numbers)

lemma arm_window_eq:
  "arm_window cfg s =
     (if GPS_PPS_ON_D2_OR_D3 cfg then
        s\<lparr>TCCR1B := 7, TIMSK1 := 1, EIMSK := 2, global_interrupts := True,
          overflowCounter := 0, gpsPPScounter := 0, g_calibration_proceed := False,
          vtrace := vtrace s @
            [NoInterrupts, Wr Main_flow V_g_calibration_proceed, Wr Main_flow V_gpsPPScounter,
             Wr Main_flow V_overflowCounter, Wr Main_flow V_EIMSK, Wr Main_flow V_TCCR1B,
             Wr Main_flow V_TIMSK1, Interrupts]\<rparr>
      else
        s\<lparr>TCCR1B := 7, TIMSK1 := 1, PCMSK1 := 32, PCIFR := PCIFR s AND NOT 2,
          global_interrupts := True,
          overflowCounter := 0, gpsPPScounter := 0, g_calibration_proceed := False,
          is_PPS_rising_edge := False,
          vtrace := vtrace s @
            [NoInterrupts, Wr Main_flow V_g_calibration_proceed, Wr Main_flow V_gpsPPScounter,
             Wr Main_flow V_overflowCounter, Wr Main_flow V_PCIFR, Wr Main_flow V_PCMSK1,
             Wr Main_flow V_is_PPS_rising_edge, Wr Main_flow V_TCCR1B,
             Wr Main_flow V_TIMSK1, Interrupts]\<rparr>)"
  by (simp add: arm_window_def Let_def emit_def bit_numbers)


lemma timer1_clock_fields [simp]:
  "TCCR1B (timer1_clock s) = TCCR1B s" "TIMSK1 (timer1_clock s) = TIMSK1 s"
  "EIMSK (timer1_clock s) = EIMSK s" "PCMSK1 (timer1_clock s) = PCMSK1 s"
  "PCIFR (timer1_clock s) = PCIFR s"
  "global_interrupts (timer1_clock s) = global_interrupts s"
  "old_cal_factor (timer1_clock s) = old_cal_factor s"
  "cal_factor (timer1_clock s) = cal_factor s"
  "measured_rx_freq (timer1_clock s) = measured_rx_freq s"
  "target_freq (timer1_clock s) = target_freq s"
  "gpsPPScounter (timer1_clock s) = gpsPPScounter s"
  "g_calibration_proceed (timer1_clock s) = g_calibration_proceed s"
  "is_PPS_rising_edge (timer1_clock s) = is_PPS_rising_edge s"
  "calls (timer1_clock s) = calls s"
  by (simp_all add: timer1_clock_def TIMER1_OVF_vect_eq Let_def)

lemma timer1_clock_stopped: "\<not> counter_running s \<Longrightarrow> timer1_clock s = s"
  by (simp add: timer1_clock_def)

lemma small_counter:
  assumes "n < 11"
  shows "((of_nat n :: u16) = 10) = (n = 10)" and "((of_nat n :: u16) = 0) = (n = 0)"
proof -
  have t: "take_bit LENGTH(16) n = n"
    using assms by (simp add: take_bit_nat_eq_self)
  have "((of_nat n :: u16) = of_nat 10) = (n = 10)"
    unfolding word_of_nat_eq_iff t by simp
  then show "((of_nat n :: u16) = 10) = (n = 10)"
    by simp
  have "((of_nat n :: u16) = of_nat 0) = (n = 0)"
    unfolding word_of_nat_eq_iff t by simp
  then show "((of_nat n :: u16) = 0) = (n = 0)"
    by simp
qed

lemma gate_open_timer1: "gate_open cfg n s \<Longrightarrow> gate_open cfg n (timer1_clock s)"
  by (simp add: gate_open_def)

lemma gate_closed_event: "gate_closed cfg s \<Longrightarrow> hw_event cfg e s = s"
  by (cases e)
     (simp_all add: gate_closed_def timer1_clock_def counter_running_def pps_transition_def
        trigger_enabled_def split: if_splits)

lemma gate_closed_run: "gate_closed cfg s \<Longrightarrow> hw_run cfg evs s = s"
  by (induction evs) (simp_all add: gate_closed_event)

lemma gate_open_trigger: "gate_open cfg n s \<Longrightarrow> trigger_enabled cfg s"
  by (simp add: gate_open_def trigger_enabled_def bit_numbers bit_numeral_word_iff split: if_splits)

lemma gate_open_running: "gate_open cfg n s \<Longrightarrow> counter_running s"
  by (simp add: gate_open_def counter_running_def)

lemma gate_closed_trigger: "gate_closed cfg s \<Longrightarrow> \<not> trigger_enabled cfg s"
  by (simp add: gate_closed_def trigger_enabled_def split: if_splits)

lemma gate_closed_running: "gate_closed cfg s \<Longrightarrow> \<not> counter_running s"
  by (simp add: gate_closed_def counter_running_def)

lemma pps_transitions_simps [simp]:
  "pps_transitions [] = 0"
  "pps_transitions (T1_rising # es) = pps_transitions es"
  "pps_transitions (PPS_rising # es) = Suc (pps_transitions es)"
  "pps_transitions (PPS_falling # es) = Suc (pps_transitions es)"
  by (simp_all add: pps_transitions_def)

lemma ext_rising:
  assumes "GPS_PPS_ON_D2_OR_D3 cfg" and "gate_open cfg n s"
  shows "(n < 10 \<longrightarrow> gate_open cfg (Suc n) (pps_transition cfg True s)) \<and>
         (\<not> n < 10 \<longrightarrow> gate_closed cfg (pps_transition cfg True s))"
proof -
  have n: "n < 11" and c: "gpsPPScounter s = of_nat n"
    using assms(2) by (simp_all add: gate_open_def)
  have "pps_transition cfg True s = PPSinterruptISR s"
    using assms gate_open_trigger [OF assms(2)] by (simp add: pps_transition_def)
  then show ?thesis
    using assms n
    by (simp add: PPSinterruptISR_eq gate_open_def gate_closed_def c small_counter bit_numbers)
qed

lemma ext_falling: "GPS_PPS_ON_D2_OR_D3 cfg \<Longrightarrow> pps_transition cfg False s = s"
  by (simp add: pps_transition_def)

lemma hw_run_append: "hw_run cfg (xs @ ys) s = hw_run cfg ys (hw_run cfg xs s)"
  by (induction xs arbitrary: s) simp_all

lemma ext_gate_run:
  assumes "GPS_PPS_ON_D2_OR_D3 cfg" and "gate_open cfg n s"
  shows "(n + length (filter (\<lambda>e. e = PPS_rising) evs) < 11 \<longrightarrow>
            gate_open cfg (n + length (filter (\<lambda>e. e = PPS_rising) evs)) (hw_run cfg evs s)) \<and>
         (\<not> n + length (filter (\<lambda>e. e = PPS_rising) evs) < 11 \<longrightarrow>
            gate_closed cfg (hw_run cfg evs s))"
  using assms(2)
proof (induction evs arbitrary: n s)
  case Nil
  then show ?case
    by (simp add: gate_open_def)
next
  case (Cons e evs)
  show ?case
  proof (cases e)
    case T1_rising
    then show ?thesis
      using Cons.IH [OF gate_open_timer1 [OF Cons.prems]] by simp
  next
    case PPS_falling
    then show ?thesis
      using Cons.IH [OF Cons.prems] by (simp add: ext_falling [OF assms(1)])
  next
    case PPS_rising
    show ?thesis
    proof (cases "n < 10")
      case True
      then have "gate_open cfg (Suc n) (pps_transition cfg True s)"
        using ext_rising [OF assms(1) Cons.prems] by simp
      from Cons.IH [OF this] show ?thesis
        using PPS_rising by simp
    next
      case False
      then have "gate_closed cfg (pps_transition cfg True s)"
        using ext_rising [OF assms(1) Cons.prems] by simp
      then show ?thesis
        using PPS_rising False by (simp add: gate_closed_run)
    qed
  qed
qed

lemma pc_transition:
  assumes "\<not> GPS_PPS_ON_D2_OR_D3 cfg" and "gate_open cfg n s"
  shows "(is_PPS_rising_edge s \<longrightarrow>
            gate_open cfg n (pps_transition cfg r s) \<and>
            \<not> is_PPS_rising_edge (pps_transition cfg r s)) \<and>
         (\<not> is_PPS_rising_edge s \<and> n < 10 \<longrightarrow>
            gate_open cfg (Suc n) (pps_transition cfg r s) \<and>
            is_PPS_rising_edge (pps_transition cfg r s)) \<and>
         (\<not> is_PPS_rising_edge s \<and> \<not> n < 10 \<longrightarrow>
            gate_closed cfg (pps_transition cfg r s))"
proof -
  have n: "n < 11" and c: "gpsPPScounter s = of_nat n"
    using assms(2) by (simp_all add: gate_open_def)
  have "pps_transition cfg r s = PCINT1_vect s"
    using assms gate_open_trigger [OF assms(2)] by (simp add: pps_transition_def)
  then show ?thesis
    using assms n
    by (simp add: PCINT1_vect_eq gate_open_def gate_closed_def c small_counter bit_numbers)
qed

lemma pc_gate_run:
  assumes "\<not> GPS_PPS_ON_D2_OR_D3 cfg" and "gate_open cfg n s"
  shows "(n + (pps_transitions evs + (if is_PPS_rising_edge s then 0 else 1)) div 2 < 11 \<longrightarrow>
           gate_open cfg
             (n + (pps_transitions evs + (if is_PPS_rising_edge s then 0 else 1)) div 2)
             (hw_run cfg evs s) \<and>
           is_PPS_rising_edge (hw_run cfg evs s) =
             (is_PPS_rising_edge s \<noteq> odd (pps_transitions evs))) \<and>
         (\<not> n + (pps_transitions evs + (if is_PPS_rising_edge s then 0 else 1)) div 2 < 11 \<longrightarrow>
           gate_closed cfg (hw_run cfg evs s))"
  using assms(2)
proof (induction evs arbitrary: n s)
  case Nil
  then show ?case
    by (simp add: gate_open_def)
next
  case (Cons e evs)
  have step: "hw_run cfg (e # evs) s = hw_run cfg evs (hw_event cfg e s)"
    by simp
  show ?case
  proof (cases "e = T1_rising")
    case True
    then show ?thesis
      using Cons.IH [OF gate_open_timer1 [OF Cons.prems]] by simp
  next
    case False
    then obtain r where e: "hw_event cfg e s = pps_transition cfg r s"
      and t: "pps_transitions (e # evs) = Suc (pps_transitions evs)"
      by (cases e) simp_all
    note tr = pc_transition [OF assms(1) Cons.prems, of r]
    show ?thesis
    proof (cases "is_PPS_rising_edge s")
      case True
      then have o: "gate_open cfg n (pps_transition cfg r s)"
        and r: "\<not> is_PPS_rising_edge (pps_transition cfg r s)"
        using tr by simp_all
      from Cons.IH [OF o] show ?thesis
        unfolding step e t using True r by simp
    next
      case low: False
      show ?thesis
      proof (cases "n < 10")
        case True
        then have o: "gate_open cfg (Suc n) (pps_transition cfg r s)"
          and r: "is_PPS_rising_edge (pps_transition cfg r s)"
          using tr low by simp_all
        from Cons.IH [OF o] show ?thesis
          unfolding step e t using low r by simp
      next
        case False
        then have "gate_closed cfg (pps_transition cfg r s)"
          using tr low by simp
        then show ?thesis
          unfolding step e t using low False by (simp add: gate_closed_run)
      qed
    qed
  qed
qed

section \<open>The gate closes on the eleventh qualifying edge\<close>

lemma arm_opens:
  "gate_open cfg 0 (arm_window cfg s)" "\<not> is_PPS_rising_edge (arm_window cfg s) \<or> GPS_PPS_ON_D2_OR_D3 cfg"
  by (simp_all add: arm_window_eq gate_open_def bit_numbers)

lemma gate_run:
  "(qualifying_edges cfg evs < 11 \<longrightarrow>
      gate_open cfg (qualifying_edges cfg evs) (hw_run cfg evs (arm_window cfg s))) \<and>
   (\<not> qualifying_edges cfg evs < 11 \<longrightarrow> gate_closed cfg (hw_run cfg evs (arm_window cfg s)))"
proof (cases "GPS_PPS_ON_D2_OR_D3 cfg")
  case True
  then show ?thesis
    using ext_gate_run [OF True arm_opens(1), of evs s] by (simp add: qualifying_edges_def)
next
  case False
  then have "\<not> is_PPS_rising_edge (arm_window cfg s)"
    using arm_opens(2) [of cfg s] by simp
  then show ?thesis
    using pc_gate_run [OF False arm_opens(1), of evs s] False
    by (simp add: qualifying_edges_def)
qed

lemma first_edge_restarts:
  assumes "qualifying_edges cfg evs = 0" and "qualifying_edges cfg (evs @ [e]) = 1"
  shows "TCNT1 (hw_run cfg (evs @ [e]) (arm_window cfg s)) = 0 \<and>
         overflowCounter (hw_run cfg (evs @ [e]) (arm_window cfg s)) = 0"
proof -
  define s1 where "s1 = hw_run cfg evs (arm_window cfg s)"
  have o: "gate_open cfg 0 s1"
    using gate_run [of cfg evs s] assms(1) by (simp add: s1_def)
  then have c: "gpsPPScounter s1 = 0"
    by (simp add: gate_open_def)
  have r: "hw_run cfg (evs @ [e]) (arm_window cfg s) = hw_event cfg e s1"
    by (simp add: hw_run_append s1_def)
  show ?thesis
    unfolding r
  proof (cases "GPS_PPS_ON_D2_OR_D3 cfg")
    case True
    then have "e = PPS_rising"
      using assms by (cases e) (simp_all add: qualifying_edges_def)
    then show "TCNT1 (hw_event cfg e s1) = 0 \<and> overflowCounter (hw_event cfg e s1) = 0"
      using True gate_open_trigger [OF o] c
      by (simp add: pps_transition_def PPSinterruptISR_eq)
  next
    case False
    then have t: "pps_transitions evs = 0"
      using assms(1) by (simp add: qualifying_edges_def)
    then have "e \<noteq> T1_rising"
      using assms(2) False by (cases e) (simp_all add: qualifying_edges_def pps_transitions_def)
    moreover have "\<not> is_PPS_rising_edge s1"
      using pc_gate_run [OF False arm_opens(1), of evs s] arm_opens(2) [of cfg s] False t
      by (simp add: s1_def)
    ultimately show "TCNT1 (hw_event cfg e s1) = 0 \<and> overflowCounter (hw_event cfg e s1) = 0"
      using False gate_open_trigger [OF o] c
      by (cases e) (simp_all add: pps_transition_def PCINT1_vect_eq)
  qed
qed

text \<open>
  C4. In both builds the gate closes on the eleventh qualifying edge and not
  before: the completion flag is set exactly when eleven qualifying edges have
  arrived since the window was armed; from then on the counter clock and the
  trigger are off; until then both are on and \<open>gpsPPScounter\<close> is the number of
  qualifying edges. The first qualifying edge sets \<open>TCNT1\<close> and
  \<open>overflowCounter\<close> to zero.
\<close>

theorem pps_gate_eleven_edges:
  "(g_calibration_proceed (hw_run cfg evs (arm_window cfg s))
      \<longleftrightarrow> 11 \<le> qualifying_edges cfg evs) \<and>
   (11 \<le> qualifying_edges cfg evs \<longrightarrow>
      TCCR1B (hw_run cfg evs (arm_window cfg s)) = 0 \<and>
      \<not> counter_running (hw_run cfg evs (arm_window cfg s)) \<and>
      \<not> trigger_enabled cfg (hw_run cfg evs (arm_window cfg s))) \<and>
   (qualifying_edges cfg evs < 11 \<longrightarrow>
      counter_running (hw_run cfg evs (arm_window cfg s)) \<and>
      trigger_enabled cfg (hw_run cfg evs (arm_window cfg s)) \<and>
      gpsPPScounter (hw_run cfg evs (arm_window cfg s)) = of_nat (qualifying_edges cfg evs)) \<and>
   (qualifying_edges cfg evs = 0 \<and> qualifying_edges cfg (evs @ [e]) = 1 \<longrightarrow>
      TCNT1 (hw_run cfg (evs @ [e]) (arm_window cfg s)) = 0 \<and>
      overflowCounter (hw_run cfg (evs @ [e]) (arm_window cfg s)) = 0)"
proof (cases "qualifying_edges cfg evs < 11")
  case True
  then have o: "gate_open cfg (qualifying_edges cfg evs) (hw_run cfg evs (arm_window cfg s))"
    using gate_run [of cfg evs s] by simp
  show ?thesis
    using True o gate_open_trigger [OF o] gate_open_running [OF o] first_edge_restarts [of cfg evs e s]
    by (simp add: gate_open_def)
next
  case False
  then have c: "gate_closed cfg (hw_run cfg evs (arm_window cfg s))"
    using gate_run [of cfg evs s] by simp
  show ?thesis
    using False c gate_closed_trigger [OF c] gate_closed_running [OF c]
    by (simp add: gate_closed_def)
qed

lemma pulses_simps [simp]:
  "pulses 0 = []"
  "pulses (Suc k) = PPS_rising # T1_rising # PPS_falling # pulses k"
  by (simp_all add: pulses_def)

lemma pps_transitions_pulses [simp]: "pps_transitions (pulses k) = 2 * k"
  by (induction k) simp_all

lemma rising_pulses [simp]: "length (filter (\<lambda>e. e = PPS_rising) (pulses k)) = k"
  by (induction k) simp_all

lemma qualifying_pulses [simp]: "qualifying_edges cfg (pulses k) = k"
  by (simp add: qualifying_edges_def)

lemma qualifying_first [simp]:
  "qualifying_edges cfg [] = 0" "qualifying_edges cfg [PPS_rising] = 1"
  by (simp_all add: qualifying_edges_def)

theorem pps_gate_eleven_edges_witness:
  "g_calibration_proceed
     (hw_run bench_config (pulses 11) (arm_window bench_config (power_on bench_config))) \<and>
   TCCR1B (hw_run bench_config (pulses 11) (arm_window bench_config (power_on bench_config))) = 0 \<and>
   \<not> trigger_enabled bench_config
     (hw_run bench_config (pulses 11) (arm_window bench_config (power_on bench_config))) \<and>
   g_calibration_proceed
     (hw_run clone_config (pulses 11) (arm_window clone_config (power_on clone_config))) \<and>
   TCCR1B (hw_run clone_config (pulses 11) (arm_window clone_config (power_on clone_config))) = 0 \<and>
   \<not> trigger_enabled clone_config
     (hw_run clone_config (pulses 11) (arm_window clone_config (power_on clone_config))) \<and>
   \<not> g_calibration_proceed
     (hw_run clone_config (pulses 10) (arm_window clone_config (power_on clone_config))) \<and>
   counter_running
     (hw_run clone_config (pulses 10) (arm_window clone_config (power_on clone_config))) \<and>
   trigger_enabled clone_config
     (hw_run clone_config (pulses 10) (arm_window clone_config (power_on clone_config))) \<and>
   gpsPPScounter
     (hw_run clone_config (pulses 10) (arm_window clone_config (power_on clone_config))) = 10 \<and>
   TCNT1 (hw_run clone_config ([] @ [PPS_rising])
     (arm_window clone_config (power_on clone_config))) = 0 \<and>
   overflowCounter (hw_run clone_config ([] @ [PPS_rising])
     (arm_window clone_config (power_on clone_config))) = 0"
  using pps_gate_eleven_edges [of bench_config "pulses 11" "power_on bench_config"]
    pps_gate_eleven_edges [of clone_config "pulses 11" "power_on clone_config"]
    pps_gate_eleven_edges [of clone_config "pulses 10" "power_on clone_config"]
    pps_gate_eleven_edges [of clone_config "[]" "power_on clone_config" PPS_rising]
  by simp

section \<open>The two edge sources agree\<close>

lemma same_gate_timer1: "same_gate a b \<Longrightarrow> same_gate (timer1_clock a) (timer1_clock b)"
  by (simp add: same_gate_def timer1_clock_def counter_running_def TIMER1_OVF_vect_eq Let_def)

lemma trigger_enabled_timer1 [simp]:
  "trigger_enabled cfg (timer1_clock s) = trigger_enabled cfg s"
  by (simp add: trigger_enabled_def)

lemma toggle_rise:
  assumes "\<not> GPS_PPS_ON_D2_OR_D3 cfgP" and "GPS_PPS_ON_D2_OR_D3 cfgE"
    and "same_gate sp se" and "trigger_enabled cfgP sp = trigger_enabled cfgE se"
    and "trigger_enabled cfgP sp \<longrightarrow> \<not> is_PPS_rising_edge sp"
  shows "same_gate (pps_transition cfgP True sp) (pps_transition cfgE True se) \<and>
         trigger_enabled cfgP (pps_transition cfgP True sp) =
           trigger_enabled cfgE (pps_transition cfgE True se) \<and>
         (trigger_enabled cfgP (pps_transition cfgP True sp) \<longrightarrow>
            is_PPS_rising_edge (pps_transition cfgP True sp))"
proof (cases "trigger_enabled cfgP sp")
  case False
  then show ?thesis
    using assms by (simp add: pps_transition_def)
next
  case True
  then have "pps_transition cfgP True sp = PCINT1_vect sp"
    and "pps_transition cfgE True se = PPSinterruptISR se"
    and "\<not> is_PPS_rising_edge sp"
    using assms by (simp_all add: pps_transition_def)
  then show ?thesis
    using assms True
    by (simp add: PCINT1_vect_eq PPSinterruptISR_eq same_gate_def trigger_enabled_def)
qed

lemma toggle_fall:
  assumes "\<not> GPS_PPS_ON_D2_OR_D3 cfgP" and "GPS_PPS_ON_D2_OR_D3 cfgE"
    and "same_gate sp se" and "trigger_enabled cfgP sp = trigger_enabled cfgE se"
    and "trigger_enabled cfgP sp \<longrightarrow> is_PPS_rising_edge sp"
  shows "same_gate (pps_transition cfgP False sp) (pps_transition cfgE False se) \<and>
         trigger_enabled cfgP (pps_transition cfgP False sp) =
           trigger_enabled cfgE (pps_transition cfgE False se) \<and>
         (trigger_enabled cfgP (pps_transition cfgP False sp) \<longrightarrow>
            \<not> is_PPS_rising_edge (pps_transition cfgP False sp))"
proof (cases "trigger_enabled cfgP sp")
  case False
  then show ?thesis
    using assms by (simp add: pps_transition_def)
next
  case True
  then have "pps_transition cfgP False sp = PCINT1_vect sp"
    and "pps_transition cfgE False se = se"
    and "is_PPS_rising_edge sp"
    using assms by (simp_all add: pps_transition_def)
  then show ?thesis
    using assms True
    by (simp add: PCINT1_vect_eq same_gate_def trigger_enabled_def)
qed

lemma toggle_run:
  assumes "\<not> GPS_PPS_ON_D2_OR_D3 cfgP" and "GPS_PPS_ON_D2_OR_D3 cfgE"
  shows "same_gate sp se \<Longrightarrow> trigger_enabled cfgP sp = trigger_enabled cfgE se \<Longrightarrow>
         (trigger_enabled cfgP sp \<longrightarrow> is_PPS_rising_edge sp = level) \<Longrightarrow>
         pulse_stream level evs \<Longrightarrow>
         same_gate (hw_run cfgP evs sp) (hw_run cfgE evs se) \<and>
         trigger_enabled cfgP (hw_run cfgP evs sp) = trigger_enabled cfgE (hw_run cfgE evs se)"
proof (induction evs arbitrary: sp se level)
  case Nil
  then show ?case by simp
next
  case (Cons e evs)
  show ?case
  proof (cases e)
    case T1_rising
    then show ?thesis
      using Cons.IH [OF same_gate_timer1 [OF Cons.prems(1)], of level] Cons.prems by simp
  next
    case PPS_rising
    then have l: "\<not> level" and p: "pulse_stream True evs"
      using Cons.prems(4) by simp_all
    have "trigger_enabled cfgP sp \<longrightarrow> \<not> is_PPS_rising_edge sp"
      using Cons.prems(3) l by simp
    note st = toggle_rise [OF assms Cons.prems(1,2) this]
    show ?thesis
      using Cons.IH [of "pps_transition cfgP True sp" "pps_transition cfgE True se" True] st p
        PPS_rising
      by simp
  next
    case PPS_falling
    then have l: "level" and p: "pulse_stream False evs"
      using Cons.prems(4) by simp_all
    have "trigger_enabled cfgP sp \<longrightarrow> is_PPS_rising_edge sp"
      using Cons.prems(3) l by simp
    note st = toggle_fall [OF assms Cons.prems(1,2) this]
    show ?thesis
      using Cons.IH [of "pps_transition cfgP False sp" "pps_transition cfgE False se" False] st p
        PPS_falling
      by simp
  qed
qed

lemma pulse_stream_take: "pulse_stream level evs \<Longrightarrow> pulse_stream level (take k evs)"
proof (induction evs arbitrary: level k)
  case Nil
  then show ?case by simp
next
  case (Cons e evs)
  then show ?case
    by (cases k; cases e) simp_all
qed

lemma arm_same_gate:
  "same_gate (arm_window cfgP s) (arm_window cfgE s)"
  "trigger_enabled cfg (arm_window cfg s)"
  by (simp_all add: arm_window_eq same_gate_def trigger_enabled_def bit_numbers bit_numeral_word_iff)

text \<open>
  C5. With the pin-change interrupt, while the window is open (up to the 21st
  transition, which is the eleventh qualifying edge) \<open>gpsPPScounter\<close> is the
  number of odd-numbered transitions seen: every other transition, starting
  from the first, is counted. On a PPS signal whose transitions alternate,
  beginning with a rising one, the pin-change build and the external-interrupt
  build show the same edge count, reference count, overflow tally, counter and
  trigger state and completion flag after every prefix of the stream.
\<close>

theorem toggle_synthesis_equivalent:
  assumes "\<not> GPS_PPS_ON_D2_OR_D3 cfgP" and "GPS_PPS_ON_D2_OR_D3 cfgE"
  shows "(pps_transitions evs \<le> 21 \<longrightarrow>
            gpsPPScounter (hw_run cfgP evs (arm_window cfgP s)) =
              of_nat ((pps_transitions evs + 1) div 2)) \<and>
         (pulse_stream False evs \<longrightarrow>
            (\<forall>k. gate_view cfgP (hw_run cfgP (take k evs) (arm_window cfgP s)) =
                 gate_view cfgE (hw_run cfgE (take k evs) (arm_window cfgE s))))"
proof (intro conjI impI allI)
  assume "pps_transitions evs \<le> 21"
  then have q: "qualifying_edges cfgP evs \<le> 11" and d: "qualifying_edges cfgP evs = (pps_transitions evs + 1) div 2"
    using assms(1) by (simp_all add: qualifying_edges_def)
  show "gpsPPScounter (hw_run cfgP evs (arm_window cfgP s)) = of_nat ((pps_transitions evs + 1) div 2)"
  proof (cases "qualifying_edges cfgP evs < 11")
    case True
    then show ?thesis
      using gate_run [of cfgP evs s] d by (simp add: gate_open_def)
  next
    case False
    then have "qualifying_edges cfgP evs = 11"
      using q by simp
    then show ?thesis
      using gate_run [of cfgP evs s] d by (simp add: gate_closed_def)
  qed
next
  fix k
  assume "pulse_stream False evs"
  then have p: "pulse_stream False (take k evs)"
    by (rule pulse_stream_take)
  have "trigger_enabled cfgP (arm_window cfgP s) = trigger_enabled cfgE (arm_window cfgE s)"
    by (simp add: arm_same_gate)
  moreover have "trigger_enabled cfgP (arm_window cfgP s) \<longrightarrow>
      is_PPS_rising_edge (arm_window cfgP s) = False"
    using arm_opens(2) [of cfgP s] assms(1) by simp
  ultimately have "same_gate (hw_run cfgP (take k evs) (arm_window cfgP s))
        (hw_run cfgE (take k evs) (arm_window cfgE s)) \<and>
      trigger_enabled cfgP (hw_run cfgP (take k evs) (arm_window cfgP s)) =
        trigger_enabled cfgE (hw_run cfgE (take k evs) (arm_window cfgE s))"
    using toggle_run [OF assms arm_same_gate(1) _ _ p] by blast
  then show "gate_view cfgP (hw_run cfgP (take k evs) (arm_window cfgP s)) =
      gate_view cfgE (hw_run cfgE (take k evs) (arm_window cfgE s))"
    by (simp add: gate_view_def same_gate_def counter_running_def)
qed

lemma pulse_stream_pulses [simp]: "pulse_stream False (pulses k)"
  by (induction k) simp_all

theorem toggle_synthesis_equivalent_witness:
  "gpsPPScounter (hw_run clone_config (pulses 3) (arm_window clone_config (power_on bench_config)))
     = 3 \<and>
   gate_view clone_config
     (hw_run clone_config (take 7 (pulses 11)) (arm_window clone_config (power_on bench_config))) =
   gate_view bench_config
     (hw_run bench_config (take 7 (pulses 11)) (arm_window bench_config (power_on bench_config)))"
  using toggle_synthesis_equivalent [of clone_config bench_config "pulses 3" "power_on bench_config"]
    toggle_synthesis_equivalent [of clone_config bench_config "pulses 11" "power_on bench_config"]
  by (simp add: clone_config_def bench_config_def)

section \<open>The handler that closes the window\<close>

lemma gate_closed_measure:
  "gate_closed cfg s \<Longrightarrow> gate_closed cfg (measure_and_adjust i step s)"
  by (simp add: gate_closed_def)

lemma eleventh_edge:
  assumes "qualifying_edges cfg evs = 10" and "qualifying_edges cfg (evs @ [e]) = 11"
  shows "gate_open cfg 10 (hw_run cfg evs (arm_window cfg s))"
    and "hw_event cfg e (hw_run cfg evs (arm_window cfg s)) =
           (if GPS_PPS_ON_D2_OR_D3 cfg
            then PPSinterruptISR (hw_run cfg evs (arm_window cfg s))
            else PCINT1_vect (hw_run cfg evs (arm_window cfg s)))"
    and "GPS_PPS_ON_D2_OR_D3 cfg \<or> \<not> is_PPS_rising_edge (hw_run cfg evs (arm_window cfg s))"
proof -
  define s1 where "s1 = hw_run cfg evs (arm_window cfg s)"
  show o: "gate_open cfg 10 (hw_run cfg evs (arm_window cfg s))"
    using gate_run [of cfg evs s] assms(1) by simp
  note en = gate_open_trigger [OF o]
  show "hw_event cfg e (hw_run cfg evs (arm_window cfg s)) =
           (if GPS_PPS_ON_D2_OR_D3 cfg
            then PPSinterruptISR (hw_run cfg evs (arm_window cfg s))
            else PCINT1_vect (hw_run cfg evs (arm_window cfg s)))"
  proof (cases "GPS_PPS_ON_D2_OR_D3 cfg")
    case True
    then have "e = PPS_rising"
      using assms by (cases e) (simp_all add: qualifying_edges_def)
    then show ?thesis
      using True en by (simp add: pps_transition_def)
  next
    case False
    then have "e \<noteq> T1_rising"
      using assms by (cases e) (simp_all add: qualifying_edges_def pps_transitions_def)
    then show ?thesis
      using False en by (cases e) (simp_all add: pps_transition_def)
  qed
  show "GPS_PPS_ON_D2_OR_D3 cfg \<or> \<not> is_PPS_rising_edge (hw_run cfg evs (arm_window cfg s))"
  proof (cases "GPS_PPS_ON_D2_OR_D3 cfg")
    case True
    then show ?thesis by simp
  next
    case False
    have ne: "e \<noteq> T1_rising"
      using assms False by (cases e) (simp_all add: qualifying_edges_def pps_transitions_def)
    have "pps_transitions (evs @ [e]) = Suc (pps_transitions evs)"
      using ne by (simp add: pps_transitions_def)
    then have "(pps_transitions evs + 1) div 2 = 10" and "(pps_transitions evs + 2) div 2 = 11"
      using assms False by (simp_all add: qualifying_edges_def)
    then have "even (pps_transitions evs)"
      by presburger
    moreover have "\<not> is_PPS_rising_edge (arm_window cfg s)"
      using arm_opens(2) [of cfg s] False by simp
    ultimately show ?thesis
      using pc_gate_run [OF False arm_opens(1), of evs s] assms(1) False
      by (simp add: qualifying_edges_def)
  qed
qed

text \<open>
  C10. On the eleventh qualifying edge, in both builds, the handler writes the
  trigger mask and \<open>TCCR1B\<close> before it writes \<open>g_calibration_proceed\<close>, which
  is its last access; the flag was clear before. In the state it leaves, the
  counter clock and the trigger are off, and neither \<open>TCNT1\<close> nor
  \<open>overflowCounter\<close> changes any more, whatever events arrive before, and after,
  the main flow reads the counter and applies the correction.
\<close>

theorem close_before_completion:
  assumes "qualifying_edges cfg evs = 10" and "qualifying_edges cfg (evs @ [e]) = 11"
  shows "let s = hw_run cfg evs (arm_window cfg s0);
             s' = hw_run cfg (evs @ [e]) (arm_window cfg s0)
         in \<not> g_calibration_proceed s \<and>
            vtrace s' = vtrace s @
              (if GPS_PPS_ON_D2_OR_D3 cfg then
                 [Rd Handler V_gpsPPScounter, Wr Handler V_gpsPPScounter,
                  Rd Handler V_gpsPPScounter, Rd Handler V_gpsPPScounter,
                  Wr Handler V_EIMSK, Wr Handler V_TCCR1B,
                  Wr Handler V_g_calibration_proceed]
               else
                 [Rd Handler V_is_PPS_rising_edge, Wr Handler V_is_PPS_rising_edge,
                  Rd Handler V_is_PPS_rising_edge,
                  Rd Handler V_gpsPPScounter, Wr Handler V_gpsPPScounter,
                  Rd Handler V_gpsPPScounter, Rd Handler V_gpsPPScounter,
                  Wr Handler V_PCMSK1, Wr Handler V_TCCR1B, Wr Handler V_is_PPS_rising_edge,
                  Wr Handler V_g_calibration_proceed]) \<and>
            g_calibration_proceed s' \<and> TCCR1B s' = 0 \<and> \<not> trigger_enabled cfg s' \<and>
            TCNT1 (hw_run cfg evs2 (measure_and_adjust i step (hw_run cfg evs1 s'))) = TCNT1 s' \<and>
            overflowCounter (hw_run cfg evs2 (measure_and_adjust i step (hw_run cfg evs1 s')))
              = overflowCounter s'"
proof -
  define s where "s = hw_run cfg evs (arm_window cfg s0)"
  define s' where "s' = hw_run cfg (evs @ [e]) (arm_window cfg s0)"
  note edge = eleventh_edge [OF assms, of s0, folded s_def]
  have step: "s' = hw_event cfg e s"
    by (simp add: s'_def s_def hw_run_append)
  have c: "gpsPPScounter s = 10" and np: "\<not> g_calibration_proceed s"
    using edge(1) by (simp_all add: gate_open_def)
  have tr: "vtrace s' = vtrace s @
      (if GPS_PPS_ON_D2_OR_D3 cfg then
         [Rd Handler V_gpsPPScounter, Wr Handler V_gpsPPScounter,
          Rd Handler V_gpsPPScounter, Rd Handler V_gpsPPScounter,
          Wr Handler V_EIMSK, Wr Handler V_TCCR1B,
          Wr Handler V_g_calibration_proceed]
       else
         [Rd Handler V_is_PPS_rising_edge, Wr Handler V_is_PPS_rising_edge,
          Rd Handler V_is_PPS_rising_edge,
          Rd Handler V_gpsPPScounter, Wr Handler V_gpsPPScounter,
          Rd Handler V_gpsPPScounter, Rd Handler V_gpsPPScounter,
          Wr Handler V_PCMSK1, Wr Handler V_TCCR1B, Wr Handler V_is_PPS_rising_edge,
          Wr Handler V_g_calibration_proceed])"
    using edge(3) c by (auto simp add: step edge(2) PPSinterruptISR_eq PCINT1_vect_eq)
  have cl: "gate_closed cfg s'"
    using gate_run [of cfg "evs @ [e]" s0] assms(2) by (simp add: s'_def)
  have "hw_run cfg evs2 (measure_and_adjust i step (hw_run cfg evs1 s')) =
      measure_and_adjust i step s'"
    using cl by (simp add: gate_closed_run gate_closed_measure)
  then have fr: "TCNT1 (hw_run cfg evs2 (measure_and_adjust i step (hw_run cfg evs1 s'))) = TCNT1 s'"
    "overflowCounter (hw_run cfg evs2 (measure_and_adjust i step (hw_run cfg evs1 s')))
       = overflowCounter s'"
    by simp_all
  show ?thesis
    unfolding Let_def s_def [symmetric] s'_def [symmetric]
    using np tr cl gate_closed_trigger [OF cl] fr by (simp add: gate_closed_def)
qed

lemma pps_transitions_append [simp]:
  "pps_transitions (xs @ ys) = pps_transitions xs + pps_transitions ys"
  by (simp add: pps_transitions_def)

lemma qualifying_pulses_edge [simp]: "qualifying_edges cfg (pulses k @ [PPS_rising]) = Suc k"
  by (simp add: qualifying_edges_def)

theorem close_before_completion_witness:
  "\<not> g_calibration_proceed
      (hw_run bench_config (pulses 10) (arm_window bench_config (power_on bench_config))) \<and>
   g_calibration_proceed
      (hw_run bench_config (pulses 10 @ [PPS_rising])
         (arm_window bench_config (power_on bench_config))) \<and>
   TCCR1B (hw_run bench_config (pulses 10 @ [PPS_rising])
         (arm_window bench_config (power_on bench_config))) = 0 \<and>
   TCNT1 (hw_run bench_config (pulses 3) (measure_and_adjust 1 50
      (hw_run bench_config [T1_rising]
         (hw_run bench_config (pulses 10 @ [PPS_rising])
            (arm_window bench_config (power_on bench_config)))))) =
   TCNT1 (hw_run bench_config (pulses 10 @ [PPS_rising])
         (arm_window bench_config (power_on bench_config))) \<and>
   \<not> g_calibration_proceed
      (hw_run clone_config (pulses 10) (arm_window clone_config (power_on clone_config))) \<and>
   g_calibration_proceed
      (hw_run clone_config (pulses 10 @ [PPS_rising])
         (arm_window clone_config (power_on clone_config))) \<and>
   overflowCounter (hw_run clone_config (pulses 3) (measure_and_adjust 1 50
      (hw_run clone_config [T1_rising]
         (hw_run clone_config (pulses 10 @ [PPS_rising])
            (arm_window clone_config (power_on clone_config)))))) =
   overflowCounter (hw_run clone_config (pulses 10 @ [PPS_rising])
         (arm_window clone_config (power_on clone_config)))"
  using close_before_completion [of bench_config "pulses 10" PPS_rising "power_on bench_config"
      "pulses 3" 1 50 "[T1_rising]"]
    close_before_completion [of clone_config "pulses 10" PPS_rising "power_on clone_config"
      "pulses 3" 1 50 "[T1_rising]"]
  by (simp add: Let_def)

section \<open>Waiting for the window\<close>

lemma PPSinterruptISR_frame [simp]:
  "old_cal_factor (PPSinterruptISR s) = old_cal_factor s"
  "cal_factor (PPSinterruptISR s) = cal_factor s"
  "measured_rx_freq (PPSinterruptISR s) = measured_rx_freq s"
  "target_freq (PPSinterruptISR s) = target_freq s"
  "global_interrupts (PPSinterruptISR s) = global_interrupts s"
  "calls (PPSinterruptISR s) = calls s"
  by (simp_all add: PPSinterruptISR_eq)

lemma PCINT1_vect_frame [simp]:
  "old_cal_factor (PCINT1_vect s) = old_cal_factor s"
  "cal_factor (PCINT1_vect s) = cal_factor s"
  "measured_rx_freq (PCINT1_vect s) = measured_rx_freq s"
  "target_freq (PCINT1_vect s) = target_freq s"
  "global_interrupts (PCINT1_vect s) = global_interrupts s"
  "calls (PCINT1_vect s) = calls s"
  by (simp_all add: PCINT1_vect_eq)

lemma hw_event_frame [simp]:
  "old_cal_factor (hw_event cfg e s) = old_cal_factor s"
  "cal_factor (hw_event cfg e s) = cal_factor s"
  "measured_rx_freq (hw_event cfg e s) = measured_rx_freq s"
  "target_freq (hw_event cfg e s) = target_freq s"
  "global_interrupts (hw_event cfg e s) = global_interrupts s"
  "calls (hw_event cfg e s) = calls s"
  by (cases e; simp add: pps_transition_def)+

lemma hw_run_frame [simp]:
  "old_cal_factor (hw_run cfg evs s) = old_cal_factor s"
  "cal_factor (hw_run cfg evs s) = cal_factor s"
  "measured_rx_freq (hw_run cfg evs s) = measured_rx_freq s"
  "target_freq (hw_run cfg evs s) = target_freq s"
  "global_interrupts (hw_run cfg evs s) = global_interrupts s"
  "calls (hw_run cfg evs s) = calls s"
  by (induction evs arbitrary: s; simp)+

lemma arm_window_frame [simp]:
  "old_cal_factor (arm_window cfg s) = old_cal_factor s"
  "cal_factor (arm_window cfg s) = cal_factor s"
  "measured_rx_freq (arm_window cfg s) = measured_rx_freq s"
  "target_freq (arm_window cfg s) = target_freq s"
  "calls (arm_window cfg s) = calls s"
  by (simp_all add: arm_window_eq)

lemma wait_done:
  "g_calibration_proceed s \<Longrightarrow>
     wait_for_window cfg evs s = Some (emit (Rd Main_flow V_g_calibration_proceed) s, evs)"
  by (cases evs) simp_all

lemma wait_some:
  "wait_for_window cfg evs s = Some (s', rest) \<Longrightarrow>
     \<exists>pre. evs = pre @ rest \<and> g_calibration_proceed (hw_run cfg pre s) \<and>
           s' = emit (Rd Main_flow V_g_calibration_proceed) (hw_run cfg pre s)"
proof (induction evs arbitrary: s)
  case Nil
  then show ?case
    by (auto split: if_splits)
next
  case (Cons e evs)
  show ?case
  proof (cases "g_calibration_proceed s")
    case True
    then have "s' = emit (Rd Main_flow V_g_calibration_proceed) s" and "rest = e # evs"
      using Cons.prems by simp_all
    then show ?thesis
      using True by (intro exI [of _ "[]"]) simp
  next
    case False
    then have "wait_for_window cfg evs (hw_event cfg e s) = Some (s', rest)"
      using Cons.prems by simp
    from Cons.IH [OF this] obtain pre where "evs = pre @ rest"
      and "g_calibration_proceed (hw_run cfg pre (hw_event cfg e s))"
      and "s' = emit (Rd Main_flow V_g_calibration_proceed) (hw_run cfg pre (hw_event cfg e s))"
      by blast
    then show ?thesis
      by (intro exI [of _ "e # pre"]) simp
  qed
qed

lemma wait_returns:
  "g_calibration_proceed (hw_run cfg evs s) \<Longrightarrow>
     \<exists>s' rest. wait_for_window cfg evs s = Some (s', rest)"
  by (induction evs arbitrary: s) simp_all

text \<open>A pass returns as soon as the stream holds eleven qualifying edges.\<close>

lemma pass_returns:
  assumes "11 \<le> qualifying_edges cfg evs"
  shows "\<exists>s' rest. calibration_pass cfg i step evs s = Some (s', rest)"
proof -
  have "g_calibration_proceed (hw_run cfg evs (arm_window cfg s))"
    using gate_run [of cfg evs s] assms by (simp add: gate_closed_def)
  from wait_returns [OF this] show ?thesis
    by (auto simp add: calibration_pass_def)
qed

lemma pass_result:
  assumes "calibration_pass cfg i step evs s = Some (s', rest)"
  obtains pre where "evs = pre @ rest"
    and "g_calibration_proceed (hw_run cfg pre (arm_window cfg s))"
    and "s' = measure_and_adjust i step
           (emit (Rd Main_flow V_g_calibration_proceed) (hw_run cfg pre (arm_window cfg s)))"
proof -
  from assms obtain sw where w: "wait_for_window cfg evs (arm_window cfg s) = Some (sw, rest)"
    and s': "s' = measure_and_adjust i step sw"
    by (auto simp add: calibration_pass_def split: option.splits)
  from wait_some [OF w] s' that show ?thesis
    by blast
qed

text \<open>
  C7. Whatever the events of the first window are, and so whatever is measured,
  the pass with \<open>i = 0\<close> leaves \<open>cal_factor\<close> as it was and calls neither the
  synthesizer driver nor the logger.
\<close>

theorem first_pass_discarded:
  assumes "calibration_pass cfg 0 calibration_step evs s = Some (s', rest)"
  shows "cal_factor s' = cal_factor s \<and> calls s' = calls s"
proof -
  from assms obtain pre where
    "s' = measure_and_adjust 0 calibration_step
           (emit (Rd Main_flow V_g_calibration_proceed) (hw_run cfg pre (arm_window cfg s)))"
    by (rule pass_result)
  then show ?thesis
    by (simp add: cal_factor_measure calls_measure)
qed

theorem first_pass_discarded_witness:
  "\<exists>s' rest. calibration_pass bench_config 0 50 (pulses 11) (power_on bench_config) = Some (s', rest) \<and>
     cal_factor s' = cal_factor (power_on bench_config) \<and> calls s' = []"
proof -
  obtain s' rest
    where r: "calibration_pass bench_config 0 50 (pulses 11) (power_on bench_config) = Some (s', rest)"
    using pass_returns [of bench_config "pulses 11" 0 50 "power_on bench_config"] by auto
  from first_pass_discarded [OF r] show ?thesis
    using r by (simp add: power_on_def)
qed

section \<open>The order of the accesses\<close>

lemma hw_event_trace:
  "\<exists>h. vtrace (hw_event cfg e s) = vtrace s @ h \<and> list_all by_handler h \<and>
       (\<not> g_calibration_proceed s \<and> g_calibration_proceed (hw_event cfg e s) \<longrightarrow>
          Wr Handler V_g_calibration_proceed \<in> set h)"
proof (cases e)
  case T1_rising
  then show ?thesis
    by (simp add: timer1_clock_def TIMER1_OVF_vect_eq Let_def)
next
  case PPS_rising
  then show ?thesis
    by (simp add: pps_transition_def PPSinterruptISR_eq PCINT1_vect_eq)
next
  case PPS_falling
  then show ?thesis
    by (simp add: pps_transition_def PPSinterruptISR_eq PCINT1_vect_eq)
qed

lemma hw_run_trace:
  "\<exists>h. vtrace (hw_run cfg evs s) = vtrace s @ h \<and> list_all by_handler h \<and>
       (\<not> g_calibration_proceed s \<and> g_calibration_proceed (hw_run cfg evs s) \<longrightarrow>
          Wr Handler V_g_calibration_proceed \<in> set h)"
proof (induction evs arbitrary: s)
  case Nil
  show ?case by simp
next
  case (Cons e evs)
  obtain h1 where h1: "vtrace (hw_event cfg e s) = vtrace s @ h1" "list_all by_handler h1"
    "\<not> g_calibration_proceed s \<and> g_calibration_proceed (hw_event cfg e s) \<longrightarrow>
       Wr Handler V_g_calibration_proceed \<in> set h1"
    using hw_event_trace [of cfg e s] by blast
  obtain h2 where h2: "vtrace (hw_run cfg evs (hw_event cfg e s)) = vtrace (hw_event cfg e s) @ h2"
    "list_all by_handler h2"
    "\<not> g_calibration_proceed (hw_event cfg e s) \<and>
       g_calibration_proceed (hw_run cfg evs (hw_event cfg e s)) \<longrightarrow>
       Wr Handler V_g_calibration_proceed \<in> set h2"
    using Cons.IH [of "hw_event cfg e s"] by blast
  show ?case
    using h1 h2 by (intro exI [of _ "h1 @ h2"]) auto
qed

lemma reads_masked_handler:
  assumes "list_all by_handler h" and "\<And>a. P a \<Longrightarrow> \<not> by_handler a"
  shows "reads_masked P off (h @ u) = reads_masked P off u"
  using assms(1)
proof (induction h)
  case Nil
  show ?case by simp
next
  case (Cons a h)
  then have "by_handler a"
    by simp
  then have "\<not> P a" "a \<noteq> NoInterrupts" "a \<noteq> Interrupts"
    using assms(2) by auto
  then show ?case
    using Cons by simp
qed

lemma reads_unarmed_handler:
  assumes "list_all by_handler h"
  shows "reads_unarmed armed (h @ u) =
           reads_unarmed (if Wr Handler V_g_calibration_proceed \<in> set h then False else armed) u"
  using assms
proof (induction h arbitrary: armed)
  case Nil
  show ?case by simp
next
  case (Cons a h)
  then have "by_handler a"
    by simp
  then have "\<not> counter_read a" "a \<noteq> Wr Main_flow V_g_calibration_proceed"
    by (auto simp add: counter_read_def reads_of_def)
  then show ?case
    using Cons by simp
qed

lemma reads_not_by_handler:
  "reads_of v a \<Longrightarrow> \<not> by_handler a" "counter_read a \<Longrightarrow> \<not> by_handler a"
  by (auto simp add: reads_of_def counter_read_def)

lemma pass_trace_shape:
  assumes "calibration_pass cfg i step evs s = Some (s', rest)"
  obtains h where "vtrace s' = vtrace s @ pass_trace cfg i step evs s"
    and "pass_trace cfg i step evs s =
           arm_accesses cfg @ h @
           [Rd Main_flow V_g_calibration_proceed, NoInterrupts, Rd Main_flow V_TCNT1, Interrupts,
            Rd Main_flow V_overflowCounter] @
           (if i \<noteq> 0 then [Rd Main_flow V_overflowCounter] else [])"
    and "list_all by_handler h" and "Wr Handler V_g_calibration_proceed \<in> set h"
proof -
  from assms obtain pre where p: "g_calibration_proceed (hw_run cfg pre (arm_window cfg s))"
    and s': "s' = measure_and_adjust i step
           (emit (Rd Main_flow V_g_calibration_proceed) (hw_run cfg pre (arm_window cfg s)))"
    by (rule pass_result)
  have a: "vtrace (arm_window cfg s) = vtrace s @ arm_accesses cfg"
    "\<not> g_calibration_proceed (arm_window cfg s)"
    by (simp_all add: arm_window_eq arm_accesses_def)
  obtain h where h: "vtrace (hw_run cfg pre (arm_window cfg s)) = vtrace (arm_window cfg s) @ h"
    "list_all by_handler h" "Wr Handler V_g_calibration_proceed \<in> set h"
    using hw_run_trace [of cfg pre "arm_window cfg s"] p a(2) by blast
  have v: "vtrace s' = vtrace s @ arm_accesses cfg @ h @
           [Rd Main_flow V_g_calibration_proceed, NoInterrupts, Rd Main_flow V_TCNT1, Interrupts,
            Rd Main_flow V_overflowCounter] @
           (if i \<noteq> 0 then [Rd Main_flow V_overflowCounter] else [])"
    by (simp add: s' h(1) a(1))
  then have "pass_trace cfg i step evs s = arm_accesses cfg @ h @
           [Rd Main_flow V_g_calibration_proceed, NoInterrupts, Rd Main_flow V_TCNT1, Interrupts,
            Rd Main_flow V_overflowCounter] @
           (if i \<noteq> 0 then [Rd Main_flow V_overflowCounter] else [])"
    by (simp add: pass_trace_def assms)
  with v h that show ?thesis
    by simp
qed

lemma scan_arm [simp]:
  "reads_unarmed armed (arm_accesses cfg @ u) = reads_unarmed True u"
  "reads_masked (reads_of v) off (arm_accesses cfg @ u) = reads_masked (reads_of v) False u"
  "reads_masked counter_read off (arm_accesses cfg @ u) = reads_masked counter_read False u"
  by (simp_all add: arm_accesses_def counter_read_def reads_of_def)

lemma scan_handler:
  assumes "list_all by_handler h"
  shows "reads_masked (reads_of v) off (h @ u) = reads_masked (reads_of v) off u"
    and "reads_masked counter_read off (h @ u) = reads_masked counter_read off u"
  by (rule reads_masked_handler [OF assms], erule reads_not_by_handler)+

text \<open>
  C8 as stated fails: in every pass the main flow reads \<open>overflowCounter\<close> after
  \<open>interrupts()\<close>, outside the critical section that protects the read of
  \<open>TCNT1\<close>.
\<close>

theorem all_counter_reads_masked_counterexample:
  "\<not> reads_masked counter_read False
       (pass_trace bench_config 0 50 (pulses 11) (power_on bench_config))"
proof -
  obtain s' rest
    where r: "calibration_pass bench_config 0 50 (pulses 11) (power_on bench_config) = Some (s', rest)"
    using pass_returns [of bench_config "pulses 11" 0 50 "power_on bench_config"] by auto
  from r obtain h where "pass_trace bench_config 0 50 (pulses 11) (power_on bench_config) =
           arm_accesses bench_config @ h @
           [Rd Main_flow V_g_calibration_proceed, NoInterrupts, Rd Main_flow V_TCNT1, Interrupts,
            Rd Main_flow V_overflowCounter] @
           (if (0 :: u8) \<noteq> 0 then [Rd Main_flow V_overflowCounter] else [])"
    and "list_all by_handler h"
    by (rule pass_trace_shape)
  then show ?thesis
    by (simp add: scan_handler counter_read_def reads_of_def)
qed

section \<open>Events between the reads\<close>

lemma measure_and_adjust_steps:
  "measure_and_adjust i step s =
     (case read_TCNT1 s of
        (s1, timer_counter1) \<Rightarrow>
          (let s2 = take_sample timer_counter1 s1
           in if i \<noteq> 0 then log_and_push i timer_counter1 (apply_step step s2) else s2))"
  by (simp only: measure_and_adjust_def read_TCNT1_def take_sample_def apply_step_def
      log_and_push_def Let_def prod.case)

lemma gate_closed_steps:
  "gate_closed cfg s \<Longrightarrow> gate_closed cfg (fst (read_TCNT1 s))"
  "gate_closed cfg s \<Longrightarrow> gate_closed cfg (take_sample tc s)"
  "gate_closed cfg s \<Longrightarrow> gate_closed cfg (apply_step step s)"
  by (simp_all add: gate_closed_def read_TCNT1_def take_sample_def apply_step_def Let_def)

lemma measure_among_closed:
  assumes "gate_closed cfg s"
  shows "measure_and_adjust_among cfg e1 e2 e3 i step s = measure_and_adjust i step s"
proof -
  obtain s1 tc where r: "read_TCNT1 s = (s1, tc)"
    by (cases "read_TCNT1 s")
  have c1: "gate_closed cfg s1"
    using gate_closed_steps(1) [OF assms] r by simp
  have c2: "gate_closed cfg (apply_step step (take_sample tc s1))"
    using c1 by (intro gate_closed_steps)
  show ?thesis
    using assms r c1 c2
    by (simp add: measure_and_adjust_among_def measure_and_adjust_steps gate_closed_run Let_def)
qed

lemma gate_closed_emit [simp]: "gate_closed cfg (emit a s) = gate_closed cfg s"
  by (simp add: gate_closed_def)

lemma wait_closes:
  assumes "wait_for_window cfg evs (arm_window cfg s) = Some (sw, rest)"
  shows "gate_closed cfg sw"
proof -
  from wait_some [OF assms] obtain pre
    where p: "g_calibration_proceed (hw_run cfg pre (arm_window cfg s))"
      and sw: "sw = emit (Rd Main_flow V_g_calibration_proceed) (hw_run cfg pre (arm_window cfg s))"
    by blast
  have "\<not> qualifying_edges cfg pre < 11"
    using gate_run [of cfg pre s] p by (auto simp add: gate_open_def)
  then have "gate_closed cfg (hw_run cfg pre (arm_window cfg s))"
    using gate_run [of cfg pre s] by simp
  then show ?thesis
    by (simp add: sw)
qed

lemma pass_among:
  assumes "calibration_pass cfg i step evs s = Some (s', rest)"
  shows "calibration_pass_among cfg e1 e2 e3 i step evs s = Some (s', rest)"
proof -
  from assms obtain sw where w: "wait_for_window cfg evs (arm_window cfg s) = Some (sw, rest)"
    and s': "s' = measure_and_adjust i step sw"
    by (auto simp add: calibration_pass_def split: option.splits)
  show ?thesis
    using w s' measure_among_closed [OF wait_closes [OF w]]
    by (simp add: calibration_pass_among_def)
qed


lemma reads_unmasked_handler:
  assumes "list_all by_handler h"
  shows "reads_unmasked (reads_of v) off (h @ u) = reads_unmasked (reads_of v) off u"
  using assms
proof (induction h)
  case Nil
  show ?case by simp
next
  case (Cons a h)
  then have "by_handler a"
    by simp
  then have "\<not> reads_of v a" "a \<noteq> NoInterrupts" "a \<noteq> Interrupts"
    using reads_not_by_handler(1) [of v a] by auto
  then show ?case
    using Cons by simp
qed

lemma reads_unmasked_arm [simp]:
  "reads_unmasked (reads_of v) off (arm_accesses cfg @ u) = reads_unmasked (reads_of v) False u"
  by (simp add: arm_accesses_def reads_of_def)

text \<open>
  C8, amended. In every pass that returns, the main flow reads \<open>TCNT1\<close> and
  \<open>overflowCounter\<close> only after the handler has set the completion flag, never
  while the window is armed. The read of \<open>TCNT1\<close> lies inside the critical
  section; every read of \<open>overflowCounter\<close>, the one for the sample and the one
  for the debug log, lies outside it, after the call that switches interrupts
  on again. No torn read across the pair is possible all the same: the window
  is closed, so whatever events arrive before the critical section, between the
  read of \<open>TCNT1\<close> and the read of \<open>overflowCounter\<close>, or before the read for
  the log, the pass ends in the same state, and the sample is computed from the
  two values the registers hold together.
\<close>

theorem counter_reads_after_completion:
  assumes "calibration_pass cfg i calibration_step evs s = Some (s', rest)"
  shows "vtrace s' = vtrace s @ pass_trace cfg i calibration_step evs s \<and>
         Rd Main_flow V_TCNT1 \<in> set (pass_trace cfg i calibration_step evs s) \<and>
         Rd Main_flow V_overflowCounter \<in> set (pass_trace cfg i calibration_step evs s) \<and>
         reads_unarmed False (pass_trace cfg i calibration_step evs s) \<and>
         reads_masked (reads_of V_TCNT1) False (pass_trace cfg i calibration_step evs s) \<and>
         reads_unmasked (reads_of V_overflowCounter) False
           (pass_trace cfg i calibration_step evs s) \<and>
         (\<forall>e1 e2 e3.
            calibration_pass_among cfg e1 e2 e3 i calibration_step evs s = Some (s', rest)) \<and>
         measured_rx_freq s' = frequency_sample (TCNT1 s') (overflowCounter s')"
proof -
  from assms obtain h where v: "vtrace s' = vtrace s @ pass_trace cfg i calibration_step evs s"
    and t: "pass_trace cfg i calibration_step evs s =
           arm_accesses cfg @ h @
           [Rd Main_flow V_g_calibration_proceed, NoInterrupts, Rd Main_flow V_TCNT1, Interrupts,
            Rd Main_flow V_overflowCounter] @
           (if i \<noteq> 0 then [Rd Main_flow V_overflowCounter] else [])"
    and h: "list_all by_handler h" "Wr Handler V_g_calibration_proceed \<in> set h"
    by (rule pass_trace_shape)
  have "Rd Main_flow V_TCNT1 \<in> set (pass_trace cfg i calibration_step evs s)"
    "Rd Main_flow V_overflowCounter \<in> set (pass_trace cfg i calibration_step evs s)"
    by (simp_all add: t)
  moreover have "reads_unarmed False (pass_trace cfg i calibration_step evs s)"
    using h by (simp add: t reads_unarmed_handler counter_read_def reads_of_def)
  moreover have "reads_masked (reads_of V_TCNT1) False (pass_trace cfg i calibration_step evs s)"
    using h(1) by (simp add: t scan_handler reads_of_def)
  moreover have "reads_unmasked (reads_of V_overflowCounter) False
      (pass_trace cfg i calibration_step evs s)"
    using h(1) by (simp add: t reads_unmasked_handler) (simp add: reads_of_def)
  moreover have "calibration_pass_among cfg e1 e2 e3 i calibration_step evs s = Some (s', rest)"
    for e1 e2 e3
    using assms by (rule pass_among)
  moreover have "measured_rx_freq s' = frequency_sample (TCNT1 s') (overflowCounter s')"
  proof -
    from assms obtain sw where "s' = measure_and_adjust i calibration_step sw"
      by (auto simp add: calibration_pass_def split: option.splits)
    then show ?thesis
      by simp
  qed
  ultimately show ?thesis
    using v by simp
qed

theorem counter_reads_after_completion_witness:
  "\<exists>s' rest. calibration_pass clone_config 1 50 (pulses 11) (power_on clone_config) = Some (s', rest) \<and>
     Rd Main_flow V_TCNT1 \<in> set (pass_trace clone_config 1 50 (pulses 11) (power_on clone_config)) \<and>
     Rd Main_flow V_overflowCounter
       \<in> set (pass_trace clone_config 1 50 (pulses 11) (power_on clone_config)) \<and>
     reads_unarmed False (pass_trace clone_config 1 50 (pulses 11) (power_on clone_config)) \<and>
     reads_masked (reads_of V_TCNT1) False
       (pass_trace clone_config 1 50 (pulses 11) (power_on clone_config)) \<and>
     reads_unmasked (reads_of V_overflowCounter) False
       (pass_trace clone_config 1 50 (pulses 11) (power_on clone_config)) \<and>
     calibration_pass_among clone_config [T1_rising] (pulses 2) [PPS_rising, T1_rising] 1 50
       (pulses 11) (power_on clone_config) = Some (s', rest) \<and>
     measured_rx_freq s' = frequency_sample (TCNT1 s') (overflowCounter s')"
proof -
  obtain s' rest
    where r: "calibration_pass clone_config 1 50 (pulses 11) (power_on clone_config) = Some (s', rest)"
    using pass_returns [of clone_config "pulses 11" 1 50 "power_on clone_config"] by auto
  from counter_reads_after_completion [OF r] show ?thesis
    using r by blast
qed

section \<open>Counting the reference clock\<close>

lemma timer1_clock_counts:
  assumes "counter_running s" and "bit (TIMSK1 s) TOIE1"
  shows "TCNT1 (timer1_clock s) = TCNT1 s + 1"
    and "overflowCounter (timer1_clock s) =
           overflowCounter s + (if TCNT1 s + 1 = 0 then 1 else 0)"
  using assms
  by (simp_all add: timer1_clock_def TIMER1_OVF_vect_eq Let_def)

lemma counter_running_timer1 [simp]:
  "counter_running (timer1_clock s) = counter_running s"
  by (simp add: counter_running_def)

lemma ticks_frame [simp]:
  "TCCR1B (hw_run cfg (replicate k T1_rising) s) = TCCR1B s"
  "TIMSK1 (hw_run cfg (replicate k T1_rising) s) = TIMSK1 s"
  "EIMSK (hw_run cfg (replicate k T1_rising) s) = EIMSK s"
  "PCMSK1 (hw_run cfg (replicate k T1_rising) s) = PCMSK1 s"
  "gpsPPScounter (hw_run cfg (replicate k T1_rising) s) = gpsPPScounter s"
  "g_calibration_proceed (hw_run cfg (replicate k T1_rising) s) = g_calibration_proceed s"
  "is_PPS_rising_edge (hw_run cfg (replicate k T1_rising) s) = is_PPS_rising_edge s"
  by (induction k arbitrary: s; simp)+

lemma u16_unat_succ:
  fixes c :: u16
  shows "unat (c + 1) = (unat c + 1) mod 65536"
  by (simp add: unat_word_ariths)

lemma u16_unat_less:
  fixes c :: u16
  shows "unat c < 65536"
  using unsigned_less [of c, where 'a = nat] by simp

lemma u16_wrap:
  fixes c :: u16
  shows "c + 1 = 0 \<Longrightarrow> Suc (unat c + k) div 65536 = Suc (k div 65536)"
    and "c + 1 \<noteq> 0 \<Longrightarrow> Suc (unat c + k) div 65536 = (unat (c + 1) + k) div 65536"
proof -
  assume z: "c + 1 = 0"
  have "\<not> unat c + 1 < 65536"
  proof
    assume "unat c + 1 < 65536"
    then have "unat (c + 1) = unat c + 1"
      by (simp add: u16_unat_succ)
    then show False
      using z by simp
  qed
  then have "unat c = 65535"
    using u16_unat_less [of c] by linarith
  then show "Suc (unat c + k) div 65536 = Suc (k div 65536)"
    by simp
next
  assume n: "c + 1 \<noteq> 0"
  have "unat c + 1 < 65536"
  proof (rule ccontr)
    assume "\<not> unat c + 1 < 65536"
    then have "unat c + 1 = 65536"
      using u16_unat_less [of c] by linarith
    then have "unat (c + 1) = 0"
      by (simp add: u16_unat_succ)
    then show False
      using n by (simp add: unat_eq_0)
  qed
  then have "unat (c + 1) = unat c + 1"
    by (simp add: u16_unat_succ)
  then show "Suc (unat c + k) div 65536 = (unat (c + 1) + k) div 65536"
    by simp
qed

lemma ticks_count:
  assumes "counter_running s" and "bit (TIMSK1 s) TOIE1"
  shows "TCNT1 (hw_run cfg (replicate k T1_rising) s) = TCNT1 s + of_nat k \<and>
         overflowCounter (hw_run cfg (replicate k T1_rising) s) =
           overflowCounter s + of_nat ((unat (TCNT1 s) + k) div 65536)"
  using assms
proof (induction k arbitrary: s)
  case 0
  have "unat (TCNT1 s) < 65536"
    by (rule u16_unat_less)
  then show ?case
    by simp
next
  case (Suc k)
  have r: "counter_running (timer1_clock s)" and b: "bit (TIMSK1 (timer1_clock s)) TOIE1"
    using Suc.prems by simp_all
  note c = timer1_clock_counts [OF Suc.prems]
  have ih: "TCNT1 (hw_run cfg (replicate k T1_rising) (timer1_clock s)) =
      TCNT1 s + 1 + of_nat k"
    "overflowCounter (hw_run cfg (replicate k T1_rising) (timer1_clock s)) =
      overflowCounter (timer1_clock s) + of_nat ((unat (TCNT1 s + 1) + k) div 65536)"
    using Suc.IH [OF r b] by (simp_all add: c(1))
  show ?case
  proof (cases "TCNT1 s + 1 = 0")
    case True
    show ?thesis
      using True by (simp add: ih c(2) u16_wrap(1) [OF True] add.assoc)
  next
    case False
    show ?thesis
      using False by (simp add: ih c(2) u16_wrap(2) [OF False] add.assoc)
  qed
qed

lemma ext_edges_keep:
  assumes "GPS_PPS_ON_D2_OR_D3 cfg"
  shows "gate_open cfg n s \<Longrightarrow> 0 < n \<Longrightarrow>
         TCNT1 (hw_run cfg (replicate j PPS_rising) s) = TCNT1 s \<and>
         overflowCounter (hw_run cfg (replicate j PPS_rising) s) = overflowCounter s"
proof (induction j arbitrary: n s)
  case 0
  show ?case by simp
next
  case (Suc j)
  have n: "n < 11" and c: "gpsPPScounter s = of_nat n"
    using Suc.prems(1) by (simp_all add: gate_open_def)
  have e: "pps_transition cfg True s = PPSinterruptISR s"
    using assms gate_open_trigger [OF Suc.prems(1)] by (simp add: pps_transition_def)
  have k: "TCNT1 (pps_transition cfg True s) = TCNT1 s"
    "overflowCounter (pps_transition cfg True s) = overflowCounter s"
    using Suc.prems(2) n by (simp_all add: e PPSinterruptISR_eq c small_counter)
  show ?case
  proof (cases "n < 10")
    case True
    then have "gate_open cfg (Suc n) (pps_transition cfg True s)"
      using ext_rising [OF assms Suc.prems(1)] by simp
    from Suc.IH [OF this] show ?thesis
      by (simp add: k)
  next
    case False
    then have "gate_closed cfg (pps_transition cfg True s)"
      using ext_rising [OF assms Suc.prems(1)] by simp
    then show ?thesis
      by (simp add: gate_closed_run k)
  qed
qed

lemma wait_exact:
  "(\<And>j. j < length pre \<Longrightarrow> \<not> g_calibration_proceed (hw_run cfg (take j pre) s)) \<Longrightarrow>
   g_calibration_proceed (hw_run cfg pre s) \<Longrightarrow>
   wait_for_window cfg (pre @ rest) s =
     Some (emit (Rd Main_flow V_g_calibration_proceed) (hw_run cfg pre s), rest)"
proof (induction pre arbitrary: s)
  case Nil
  then show ?case
    by (simp add: wait_done)
next
  case (Cons e pre)
  have "\<not> g_calibration_proceed s"
    using Cons.prems(1) [of 0] by simp
  moreover have "\<not> g_calibration_proceed (hw_run cfg (take j pre) (hw_event cfg e s))"
    if "j < length pre" for j
    using Cons.prems(1) [of "Suc j"] that by simp
  ultimately show ?case
    using Cons.IH [of "hw_event cfg e s"] Cons.prems(2) by simp
qed

lemma proper_prefix_count:
  assumes "j < length xs" and "P (last xs)"
  shows "length (filter P (take j xs)) < length (filter P xs)"
proof -
  have d: "drop j xs \<noteq> []"
    using assms(1) by simp
  have l: "last (drop j xs) = last xs"
    using assms(1) by simp
  have "last (drop j xs) \<in> set (drop j xs)"
    using d by (rule last_in_set)
  then have "last xs \<in> set (filter P (drop j xs))"
    using l assms(2) by simp
  then have "0 < length (filter P (drop j xs))"
    by (rule length_pos_if_in_set)
  moreover have "filter P xs = filter P (take j xs) @ filter P (drop j xs)"
    by (simp add: filter_append [symmetric])
  ultimately show ?thesis
    by simp
qed

lemma reference_window_edges:
  assumes "GPS_PPS_ON_D2_OR_D3 cfg"
  shows "qualifying_edges cfg (reference_window k) = 11"
    and "j < length (reference_window k) \<Longrightarrow>
           qualifying_edges cfg (take j (reference_window k)) < 11"
proof -
  have q: "length (filter (\<lambda>e. e = PPS_rising) (reference_window k)) = 11"
    by (simp add: reference_window_def)
  then show "qualifying_edges cfg (reference_window k) = 11"
    using assms by (simp add: qualifying_edges_def)
  assume "j < length (reference_window k)"
  moreover have "last (reference_window k) = PPS_rising"
    by (simp add: reference_window_def)
  ultimately have "length (filter (\<lambda>e. e = PPS_rising) (take j (reference_window k))) < 11"
    using proper_prefix_count [of j "reference_window k" "\<lambda>e. e = PPS_rising"] q by simp
  then show "qualifying_edges cfg (take j (reference_window k)) < 11"
    using assms by (simp add: qualifying_edges_def)
qed

lemma reference_window_counts:
  assumes "GPS_PPS_ON_D2_OR_D3 cfg"
  shows "TCNT1 (hw_run cfg (reference_window k) (arm_window cfg s)) = of_nat k \<and>
         overflowCounter (hw_run cfg (reference_window k) (arm_window cfg s)) =
           of_nat (k div 65536)"
proof -
  define s1 where "s1 = pps_transition cfg True (arm_window cfg s)"
  define s2 where "s2 = hw_run cfg (replicate k T1_rising) s1"
  have o1: "gate_open cfg 1 s1"
    using ext_rising [OF assms arm_opens(1), of s] by (simp add: s1_def)
  have z: "TCNT1 s1 = 0" "overflowCounter s1 = 0" "bit (TIMSK1 s1) TOIE1"
    using assms
    by (simp_all add: s1_def pps_transition_def arm_window_eq PPSinterruptISR_eq
        trigger_enabled_def bit_numbers bit_numeral_word_iff)
  have c2: "TCNT1 s2 = of_nat k" "overflowCounter s2 = of_nat (k div 65536)"
    using ticks_count [OF gate_open_running [OF o1] z(3), of cfg k] z(1,2)
    by (simp_all add: s2_def)
  have o2: "gate_open cfg 1 s2"
    using o1 by (simp add: gate_open_def s2_def)
  have "hw_run cfg (reference_window k) (arm_window cfg s) =
      hw_run cfg (replicate 10 PPS_rising) s2"
    by (simp add: reference_window_def hw_run_append s2_def s1_def)
  then show ?thesis
    using ext_edges_keep [OF assms o2, of 10] c2 by simp
qed

section \<open>The loop\<close>

lemma cal_factor_huff_n_puff:
  "cal_factor (measure_and_adjust i step s) =
     huff_n_puff (target_freq s) step (unat i)
       (frequency_sample (TCNT1 s) (overflowCounter s)) (cal_factor s)"
  by (auto simp add: cal_factor_measure huff_n_puff_def Let_def unat_eq_0)

lemma pass_reference_window:
  assumes "GPS_PPS_ON_D2_OR_D3 cfg"
  shows "\<exists>s'. calibration_pass cfg i step (reference_window k @ rest) s = Some (s', rest) \<and>
           cal_factor s' =
             huff_n_puff (target_freq s) step (unat i) (sample_of_edges k) (cal_factor s) \<and>
           target_freq s' = target_freq s \<and> measured_rx_freq s' = sample_of_edges k"
proof -
  define sw where "sw = hw_run cfg (reference_window k) (arm_window cfg s)"
  have "\<not> g_calibration_proceed (hw_run cfg (take j (reference_window k)) (arm_window cfg s))"
    if "j < length (reference_window k)" for j
    using gate_run [of cfg "take j (reference_window k)" s]
      reference_window_edges(2) [OF assms that]
    by (simp add: gate_open_def)
  moreover have "g_calibration_proceed sw"
    using gate_run [of cfg "reference_window k" s] reference_window_edges(1) [OF assms, of k]
    by (simp add: gate_closed_def sw_def)
  ultimately have "wait_for_window cfg (reference_window k @ rest) (arm_window cfg s) =
      Some (emit (Rd Main_flow V_g_calibration_proceed) sw, rest)"
    unfolding sw_def by (rule wait_exact)
  then have "calibration_pass cfg i step (reference_window k @ rest) s =
      Some (measure_and_adjust i step (emit (Rd Main_flow V_g_calibration_proceed) sw), rest)"
    by (simp add: calibration_pass_def)
  moreover have "TCNT1 sw = of_nat k" "overflowCounter sw = of_nat (k div 65536)"
    using reference_window_counts [OF assms, of k s] by (simp_all add: sw_def)
  ultimately show ?thesis
    by (simp add: cal_factor_huff_n_puff sample_of_edges_def sw_def)
qed

lemma loop_finished:
  "\<not> i < 24 \<Longrightarrow> calibration_loop cfg step i evs s = Some (s, evs)"
  by (subst calibration_loop.simps) simp

lemma loop_step:
  "i < 24 \<Longrightarrow> calibration_pass cfg (of_nat i) step evs s = Some (s1, evs1) \<Longrightarrow>
     calibration_loop cfg step i evs s = calibration_loop cfg step (Suc i) evs1 s1"
  by (subst calibration_loop.simps) simp

lemma loop_stuck:
  "i < 24 \<Longrightarrow> calibration_pass cfg (of_nat i) step evs s = None \<Longrightarrow>
     calibration_loop cfg step i evs s = None"
  by (subst calibration_loop.simps) simp

lemma unat_pass_index: "i < 24 \<Longrightarrow> unat (of_nat i :: u8) = i"
  by (simp add: unat_of_nat)

lemma loop_reference_windows:
  assumes "GPS_PPS_ON_D2_OR_D3 cfg"
  shows "length ks = 24 - i \<Longrightarrow>
         \<exists>s'. calibration_loop cfg step i (concat (map reference_window ks) @ rest) s =
                 Some (s', rest) \<and>
              cal_factor s' = corrections (target_freq s) step i ks (cal_factor s)"
proof (induction ks arbitrary: i s)
  case Nil
  then show ?case
    by (simp add: loop_finished)
next
  case (Cons k ks)
  then have i: "i < 24" and l: "length ks = 24 - Suc i"
    by simp_all
  obtain s1 where p: "calibration_pass cfg (of_nat i) step
        (reference_window k @ concat (map reference_window ks) @ rest) s =
        Some (s1, concat (map reference_window ks) @ rest)"
    and c: "cal_factor s1 =
        huff_n_puff (target_freq s) step i (sample_of_edges k) (cal_factor s)"
    and t: "target_freq s1 = target_freq s"
    using pass_reference_window [OF assms, of "of_nat i" step k _ s] unat_pass_index [OF i]
    by auto
  from Cons.IH [OF l, of s1] obtain s' where
    "calibration_loop cfg step (Suc i) (concat (map reference_window ks) @ rest) s1
       = Some (s', rest)"
    and "cal_factor s' = corrections (target_freq s1) step (Suc i) ks (cal_factor s1)"
    by blast
  then show ?case
    using loop_step [OF i p] c t by simp
qed

lemma committed_reference_windows:
  assumes "GPS_PPS_ON_D2_OR_D3 cfg" and "length ks = 24"
  shows "committed_correction (do_calibration cfg step (concat (map reference_window ks)) s) =
           Some (corrections (target_freq s) step 0 ks (cal_factor s))"
proof -
  obtain s' where "calibration_loop cfg step 0 (concat (map reference_window ks) @ []) s =
      Some (s', [])"
    and "cal_factor s' = corrections (target_freq s) step 0 ks (cal_factor s)"
    using loop_reference_windows [OF assms(1), of ks 0 step "[]" s] assms(2) by auto
  then show ?thesis
    by (simp add: do_calibration_def committed_correction_def Let_def)
qed

section \<open>Whole calls on the example streams\<close>

lemma sample_values [simp]:
  "sample_of_edges 31999999 = 319999990"
  "sample_of_edges 32000001 = 320000010"
  "sample_of_edges 0 = 0"
  by (simp_all add: sample_of_edges_def frequency_sample_def)

lemma huff_n_puff_values [simp]:
  "huff_n_puff 320000000 step i 319999990 c = (if i = 0 then c else c - step)"
  "huff_n_puff 320000000 step i 320000010 c = (if i = 0 then c else c + step)"
  "huff_n_puff 320000000 step i 0 c = c"
  by (simp_all add: huff_n_puff_def)

lemma corrections_low:
  "0 < i \<Longrightarrow> corrections 320000000 step i (replicate n 31999999) c = c - of_nat n * step"
  by (induction n arbitrary: i c) (simp_all add: distrib_right)

lemma corrections_high:
  "0 < i \<Longrightarrow> corrections 320000000 step i (replicate n 32000001) c = c + of_nat n * step"
  by (induction n arbitrary: i c) (simp_all add: distrib_right)

lemma corrections_append:
  "corrections target step i (xs @ ys) c =
     corrections target step (i + length xs) ys (corrections target step i xs c)"
  by (induction xs arbitrary: i c) simp_all

lemma replicate_24: "replicate 24 x = x # replicate 23 x"
  by (simp add: eval_nat_numeral)

lemma replicate_5: "replicate 5 x = x # replicate 4 x"
  by (simp add: eval_nat_numeral)

lemma corrections_steady_low: "corrections 320000000 50 0 steady_low 0 = - 1150"
  by (simp add: steady_low_def replicate_24 corrections_low)

lemma corrections_steady_high:
  "corrections 320000000 1 0 steady_high 2147483647 = 2147483670"
  by (simp add: steady_high_def replicate_24 corrections_high)

lemma corrections_signal_lost: "corrections 320000000 50 0 signal_lost 0 = - 1100"
  by (simp add: signal_lost_def replicate_5 corrections_append corrections_low)

lemma corrections_before_loss: "corrections 320000000 50 0 (take 5 signal_lost) 0 = - 200"
  by (simp add: signal_lost_def replicate_5 corrections_low)

section \<open>The bound on the correction of one call\<close>

lemma pass_steps:
  assumes "calibration_pass cfg i step evs s = Some (s', rest)"
  shows "(i = 0 \<longrightarrow> cal_factor s' = cal_factor s) \<and>
         (cal_factor s' = cal_factor s \<or> cal_factor s' = cal_factor s + step \<or>
          cal_factor s' = cal_factor s - step)"
proof -
  from assms obtain pre where
    "s' = measure_and_adjust i step
           (emit (Rd Main_flow V_g_calibration_proceed) (hw_run cfg pre (arm_window cfg s)))"
    by (rule pass_result)
  then show ?thesis
    by (simp add: cal_factor_measure Let_def)
qed

lemma pass_bounded:
  assumes "calibration_pass cfg i step evs s = Some (s', rest)"
  shows "\<exists>k :: int. \<bar>k\<bar> \<le> (if i = 0 then 0 else 1) \<and>
           cal_factor s' = cal_factor s + of_int k * step"
proof -
  note p = pass_steps [OF assms]
  show ?thesis
  proof (cases "i = 0")
    case True
    then show ?thesis
      using p by (intro exI [of _ 0]) simp
  next
    case False
    consider "cal_factor s' = cal_factor s" | "cal_factor s' = cal_factor s + step"
      | "cal_factor s' = cal_factor s - step"
      using p by blast
    then show ?thesis
    proof cases
      case 1
      then show ?thesis
        using False by (intro exI [of _ 0]) simp
    next
      case 2
      then show ?thesis
        using False by (intro exI [of _ 1]) simp
    next
      case 3
      then show ?thesis
        using False by (intro exI [of _ "- 1"]) simp
    qed
  qed
qed

lemma pass_index_zero: "i < 24 \<Longrightarrow> ((of_nat i :: u8) = 0) = (i = 0)"
  using unat_pass_index [of i] by (auto simp add: unat_eq_0 [symmetric] simp del: unat_eq_0)

lemma loop_bounded:
  "n = 24 - i \<Longrightarrow> calibration_loop cfg step i evs s = Some (s', rest) \<Longrightarrow>
     \<exists>k :: int. \<bar>k\<bar> \<le> int (24 - max i 1) \<and> cal_factor s' = cal_factor s + of_int k * step"
proof (induction n arbitrary: i evs s)
  case 0
  then have "\<not> i < 24"
    by simp
  then have "s' = s"
    using "0.prems"(2) by (simp add: loop_finished)
  then show ?case
    by (intro exI [of _ 0]) simp
next
  case (Suc n)
  then have i: "i < 24" and n: "n = 24 - Suc i"
    by simp_all
  obtain s1 evs1 where p: "calibration_pass cfg (of_nat i) step evs s = Some (s1, evs1)"
    using Suc.prems(2) loop_stuck [OF i, of cfg step evs s]
    by (cases "calibration_pass cfg (of_nat i) step evs s") auto
  then have l: "calibration_loop cfg step (Suc i) evs1 s1 = Some (s', rest)"
    using Suc.prems(2) loop_step [OF i p] by simp
  obtain k1 :: int where k1: "\<bar>k1\<bar> \<le> (if i = 0 then 0 else 1)"
    "cal_factor s1 = cal_factor s + of_int k1 * step"
    using pass_bounded [OF p] pass_index_zero [OF i] by auto
  obtain k2 :: int where k2: "\<bar>k2\<bar> \<le> int (24 - max (Suc i) 1)"
    "cal_factor s' = cal_factor s1 + of_int k2 * step"
    using Suc.IH [OF n l] by blast
  have "\<bar>k1 + k2\<bar> \<le> int (24 - max i 1)"
    using k1(1) k2(1) i by (cases "i = 0") auto
  moreover have "cal_factor s' = cal_factor s + of_int (k1 + k2) * step"
    by (simp add: k1(2) k2(2) distrib_right)
  ultimately show ?case
    by blast
qed

lemma sint_steps:
  fixes c d :: u32
  assumes "\<bar>k\<bar> \<le> 23" and "- 2147483648 \<le> sint c - 23 * uint d"
    and "sint c + 23 * uint d < 2147483648"
  shows "sint (c + of_int k * d) = sint c + k * uint d"
proof -
  have d: "0 \<le> uint d"
    by simp
  have "k * uint d \<le> 23 * uint d" and "- (23 * uint d) \<le> k * uint d"
  proof -
    have "k \<le> 23" and "- 23 \<le> k"
      using assms(1) by linarith+
    then show "k * uint d \<le> 23 * uint d" and "- (23 * uint d) \<le> k * uint d"
      using d mult_right_mono [of k 23 "uint d"] mult_right_mono [of "- 23" k "uint d"]
      by simp_all
  qed
  then have lo: "- 2147483648 \<le> sint c + k * uint d" and hi: "sint c + k * uint d < 2147483648"
    using assms(2,3) by linarith+
  have eq: "c + of_int k * d = word_of_int (sint c + k * uint d)"
    by (simp only: of_int_add of_int_mult word_of_int_uint of_int_sint scast_id)
  have "sint (c + of_int k * d) = signed_take_bit 31 (sint c + k * uint d)"
    by (subst eq) (simp only: sint_sbintrunc', simp)
  also have "\<dots> = sint c + k * uint d"
    by (rule signed_take_bit_int_eq_self) (use lo hi in simp_all)
  finally show ?thesis .
qed

text \<open>
  Where no step wraps around, the bound holds: when the initial factor is at
  least \<open>23 * calibration_step\<close> away from both ends of the \<open>int32_t\<close> range,
  the factor a complete call leaves behind differs from the initial one by at
  most \<open>23 * calibration_step\<close>.
\<close>

lemma correction_bounded_without_wrap:
  assumes "do_calibration cfg calibration_step evs s = Some (s', rest)"
    and "- 2147483648 \<le> sint (cal_factor s) - 23 * uint calibration_step"
    and "sint (cal_factor s) + 23 * uint calibration_step < 2147483648"
  shows "\<bar>sint (cal_factor s') - sint (cal_factor s)\<bar> \<le> 23 * uint calibration_step"
proof -
  from assms(1) obtain sl where l: "calibration_loop cfg calibration_step 0 evs s = Some (sl, rest)"
    and c: "cal_factor s' = cal_factor sl"
    by (auto simp add: do_calibration_def Let_def split: option.splits)
  from loop_bounded [OF _ l] obtain k :: int where k: "\<bar>k\<bar> \<le> 23"
    and f: "cal_factor sl = cal_factor s + of_int k * calibration_step"
    by auto
  have "sint (cal_factor s') = sint (cal_factor s) + k * uint calibration_step"
    unfolding c f using k assms(2,3) by (rule sint_steps)
  moreover have "\<bar>k * uint calibration_step\<bar> \<le> 23 * uint calibration_step"
    using k by (simp add: abs_mult mult_right_mono)
  ultimately show ?thesis
    by simp
qed

lemma do_calibration_reference_windows:
  assumes "GPS_PPS_ON_D2_OR_D3 cfg" and "length ks = 24"
  shows "\<exists>s'. do_calibration cfg step (concat (map reference_window ks)) s = Some (s', []) \<and>
           cal_factor s' = corrections (target_freq s) step 0 ks (cal_factor s)"
proof -
  obtain sl where "calibration_loop cfg step 0 (concat (map reference_window ks) @ []) s =
      Some (sl, [])"
    and "cal_factor sl = corrections (target_freq s) step 0 ks (cal_factor s)"
    using loop_reference_windows [OF assms(1), of ks 0 step "[]" s] assms(2) by auto
  then show ?thesis
    by (simp add: do_calibration_def Let_def)
qed

lemma example_facts [simp]:
  "GPS_PPS_ON_D2_OR_D3 bench_config" "GPS_PPS_ON_D2_OR_D3 saturated_config"
  "length steady_low = 24" "length steady_high = 24" "length signal_lost = 24"
  "target_freq (power_on bench_config) = 320000000"
  "target_freq (power_on saturated_config) = 320000000"
  "cal_factor (power_on bench_config) = 0"
  "cal_factor (power_on saturated_config) = 2147483647"
  by (simp_all add: bench_config_def saturated_config_def steady_low_def steady_high_def
      signal_lost_def power_on_def)

text \<open>
  C9. The bound of \<open>23 * calibration_step\<close> on the change of the correction
  factor over one call, and the bound of \<open>24 * calibration_step\<close> that the
  comment at the head of the loop states, are broken where the 32-bit
  arithmetic wraps around: from the largest \<open>int32_t\<close>, with a step of one and
  every sample above the target, the call leaves \<open>2147483670\<close>, which as an
  \<open>int32_t\<close> is \<open>-2147483626\<close>, at a distance of \<open>2^32 - 23\<close> from where it
  began.
\<close>

theorem correction_bound_broken_by_wrap:
  "committed_correction
     (do_calibration saturated_config 1 (concat (map reference_window steady_high))
        (power_on saturated_config)) = Some 2147483670 \<and>
   cal_factor (power_on saturated_config) = 2147483647 \<and>
   sint (2147483670 :: u32) = - 2147483626 \<and>
   \<not> \<bar>sint (2147483670 :: u32) - sint (2147483647 :: u32)\<bar> \<le> 23 * uint (1 :: u32) \<and>
   \<not> \<bar>sint (2147483670 :: u32) - sint (2147483647 :: u32)\<bar> \<le> 24 * uint (1 :: u32)"
  by (simp add: committed_reference_windows corrections_steady_high)

lemma signal_lost_nth: "signal_lost ! 5 = 0"
  by (simp add: signal_lost_def nth_append)

text \<open>
  C3. The reference signal is lost in the window of pass 5: no edge is counted
  and the sample is zero. The pass reports \<open>swerr(8, 0)\<close> and goes on to log
  and to push the unchanged factor to the synthesizer; the loop goes on as
  well. After pass 4 the factor was \<open>-200\<close>; the call leaves \<open>-1100\<close>, the 18
  passes after the loss having lowered it by 50 each.
\<close>

theorem signal_loss_does_not_abort:
  "sample_of_edges (signal_lost ! 5) = 0 \<and>
   calls (measure_and_adjust 5 50 (window_end 0 0)) =
     [Swerr 8 0, Log_debug_Timer1_info 5 0 0, Log_calibration 0 0 0,
      Si5351bx_set_correction 0, Si5351bx_setfreq SI5351A_CAL_CLK_NUM 320000000, Delay 10] \<and>
   corrections 320000000 50 0 (take 5 signal_lost) 0 = - 200 \<and>
   committed_correction
     (do_calibration bench_config 50 (concat (map reference_window signal_lost))
        (power_on bench_config)) = Some (- 1100)"
  by (simp add: committed_reference_windows corrections_signal_lost corrections_before_loss
      calls_measure cal_factor_measure frequency_sample_def signal_lost_nth)

section \<open>The sample of a window above \<open>2^15\<close>\<close>

lemma measured_reference_window:
  assumes "GPS_PPS_ON_D2_OR_D3 cfg"
  shows "measured_sample (calibration_pass cfg i step (reference_window k) s) =
           Some (sample_of_edges k)"
  using pass_reference_window [OF assms, of i step k "[]" s]
  by (auto simp add: measured_sample_def)

text \<open>
  C2. A window in which 32 015 000 reference edges are counted leaves \<open>488\<close> in
  \<open>overflowCounter\<close> and \<open>33432\<close> in \<open>TCNT1\<close>. The sample should be
  \<open>(33432 + 65536 * 488) * 10 = 320150000\<close>; the program computes
  \<open>319494640\<close>, because \<open>timer_counter1\<close> is a signed 16-bit \<open>int\<close> and
  \<open>33432\<close> is read as \<open>-32104\<close>.
\<close>

theorem sample_wrong_above_int_max:
  "measured_sample
     (calibration_pass bench_config 1 50 (reference_window 32015000) (power_on bench_config))
     = Some 319494640 \<and>
   uint (measured_rx_freq (measure_and_adjust 1 50 (window_end 33432 488))) = 319494640 \<and>
   (uint (33432 :: u16) + 65536 * uint (488 :: u16)) * 10 = 320150000"
  by (simp add: measured_reference_window sample_of_edges_def frequency_sample_def)

end
